theory Spec2Isabelle
  imports Main
begin

section \<open>Python strings\<close>

text \<open>
  A Python \<^verbatim>\<open>str\<close> is a sequence of Unicode code points, so it is modelled as a list of
  natural numbers; \<open>u\<close> turns an ASCII literal into such a list.  The program's texts use
  a few symbols beyond ASCII, which are named here by their code points.
\<close>

type_synonym pystr = "nat list"

definition u :: "string \<Rightarrow> pystr" where
  "u s = map of_char s"

definition cross_mark :: pystr where "cross_mark = [10060]"
definition check_mark :: pystr where "check_mark = [9989]"
definition bullet :: pystr where "bullet = [8226]"
definition bar_chart :: pystr where "bar_chart = [128202]"
definition bust :: pystr where "bust = [128100]"

text \<open>
  \<^verbatim>\<open>str.strip()\<close> without arguments removes leading and trailing white space, that is,
  the code points for which \<^verbatim>\<open>str.isspace\<close> holds.
\<close>

definition isspace :: "nat \<Rightarrow> bool" where
  "isspace c = ((9 \<le> c \<and> c \<le> 13) \<or> (28 \<le> c \<and> c \<le> 32) \<or> c = 133 \<or> c = 160 \<or> c = 5760
     \<or> (8192 \<le> c \<and> c \<le> 8202) \<or> c = 8232 \<or> c = 8233 \<or> c = 8239 \<or> c = 8287 \<or> c = 12288)"

definition strip :: "pystr \<Rightarrow> pystr" where
  "strip s = rev (dropWhile isspace (rev (dropWhile isspace s)))"

section \<open>Regular expressions as \<^verbatim>\<open>re.match\<close> runs them\<close>

text \<open>
  The three validators call \<^verbatim>\<open>re.match(pattern, s)\<close>.  The patterns use literal
  characters, character classes given by ranges, grouping, alternation, the counted
  repetitions \<^verbatim>\<open>?\<close>, \<^verbatim>\<open>+\<close>, \<^verbatim>\<open>{m,n}\<close>, \<^verbatim>\<open>{m,}\<close> and the anchors \<^verbatim>\<open>^\<close> and \<^verbatim>\<open>$\<close>.
  \<open>Rep r m (Some n)\<close> is \<^verbatim>\<open>r{m,n}\<close> and \<open>Rep r m None\<close> is \<^verbatim>\<open>r{m,}\<close>.
\<close>

datatype rx =
    Bol
  | Eol
  | Chr nat
  | Cls "(nat \<times> nat) list"
  | Seq rx rx
  | Alt rx rx
  | Rep rx nat "nat option"

definition in_cls :: "(nat \<times> nat) list \<Rightarrow> nat \<Rightarrow> bool" where
  "in_cls rs c = list_ex (\<lambda>(lo, hi). lo \<le> c \<and> c \<le> hi) rs"

text \<open>
  A matcher state is the number of characters consumed so far and the input that remains.
  \<open>rmatch r st\<close> lists every state in which a match of \<open>r\<close> begun in \<open>st\<close> can end: the
  backtracking search of \<^verbatim>\<open>re\<close> succeeds exactly when one of its choices does.  Without the
  MULTILINE flag \<^verbatim>\<open>^\<close> holds at the start of the string only, and \<^verbatim>\<open>$\<close> holds at the end of
  the string and also just before a newline that is the last character of the string.
\<close>

type_synonym mstate = "nat \<times> pystr"

fun rep_exact :: "(mstate \<Rightarrow> mstate list) \<Rightarrow> nat \<Rightarrow> mstate \<Rightarrow> mstate list" where
  "rep_exact f 0 st = [st]"
| "rep_exact f (Suc k) st = concat (map (rep_exact f k) (f st))"

fun rep_upto :: "(mstate \<Rightarrow> mstate list) \<Rightarrow> nat \<Rightarrow> mstate \<Rightarrow> mstate list" where
  "rep_upto f 0 st = [st]"
| "rep_upto f (Suc k) st = st # concat (map (rep_upto f k) (f st))"

primrec rmatch :: "rx \<Rightarrow> mstate \<Rightarrow> mstate list" where
  "rmatch Bol st = (if fst st = 0 then [st] else [])"
| "rmatch Eol st = (if snd st = [] \<or> snd st = [10] then [st] else [])"
| "rmatch (Chr c) st =
     (case snd st of [] \<Rightarrow> [] | x # xs \<Rightarrow> if x = c then [(Suc (fst st), xs)] else [])"
| "rmatch (Cls rs) st =
     (case snd st of [] \<Rightarrow> [] | x # xs \<Rightarrow> if in_cls rs x then [(Suc (fst st), xs)] else [])"
| "rmatch (Seq a b) st = concat (map (rmatch b) (rmatch a st))"
| "rmatch (Alt a b) st = rmatch a st @ rmatch b st"
| "rmatch (Rep r lo hi) st =
     concat (map (\<lambda>st'. rep_upto (rmatch r)
                           (case hi of None \<Rightarrow> length (snd st') | Some h \<Rightarrow> h - lo) st')
                 (rep_exact (rmatch r) lo st))"

definition re_match :: "rx \<Rightarrow> pystr \<Rightarrow> bool" where
  "re_match r s = (rmatch r (0, s) \<noteq> [])"

text \<open>The usual abbreviations of the pattern syntax.\<close>

definition Opt :: "rx \<Rightarrow> rx" where "Opt r = Rep r 0 (Some 1)"
definition Plus :: "rx \<Rightarrow> rx" where "Plus r = Rep r 1 None"

text \<open>A literal text; the empty one matches the empty word only.\<close>

fun Str :: "pystr \<Rightarrow> rx" where
  "Str [] = Rep (Chr 0) 0 (Some 0)"
| "Str [c] = Chr c"
| "Str (c # cs) = Seq (Chr c) (Str cs)"

definition ch :: "char \<Rightarrow> nat" where "ch c = of_char c"

definition lower :: "nat \<times> nat" where "lower = (ch CHR ''a'', ch CHR ''z'')"
definition upper :: "nat \<times> nat" where "upper = (ch CHR ''A'', ch CHR ''Z'')"
definition digit :: "nat \<times> nat" where "digit = (ch CHR ''0'', ch CHR ''9'')"
definition one :: "char \<Rightarrow> nat \<times> nat" where "one c = (ch c, ch c)"

section \<open>The validators\<close>

text \<open>\<^verbatim>\<open>^[a-zA-Z0-9][a-zA-Z0-9-]{0,61}[a-zA-Z0-9]?\.([a-zA-Z]{2,})$\<close>\<close>

definition domain_body :: rx where
  "domain_body =
     Seq (Cls [lower, upper, digit])
    (Seq (Rep (Cls [lower, upper, digit, one CHR ''-'']) 0 (Some 61))
    (Seq (Opt (Cls [lower, upper, digit]))
    (Seq (Chr (ch CHR ''.''))
         (Rep (Cls [lower, upper]) 2 None))))"

definition domain_pattern :: rx where
  "domain_pattern = Seq Bol (Seq domain_body Eol)"

text \<open>\<^verbatim>\<open>^[a-zA-Z0-9._%+-]+@[a-zA-Z0-9.-]+\.[a-zA-Z]{2,}$\<close>\<close>

definition email_body :: rx where
  "email_body =
     Seq (Plus (Cls [lower, upper, digit, one CHR ''.'', one CHR ''_'', one CHR ''%'',
                     one CHR ''+'', one CHR ''-'']))
    (Seq (Chr (ch CHR ''@''))
    (Seq (Plus (Cls [lower, upper, digit, one CHR ''.'', one CHR ''-'']))
    (Seq (Chr (ch CHR ''.''))
         (Rep (Cls [lower, upper]) 2 None))))"

definition email_pattern :: rx where
  "email_pattern = Seq Bol (Seq email_body Eol)"

text \<open>\<^verbatim>\<open>^https?://(www\.)?linkedin\.com/(in|company)/[a-zA-Z0-9-]+/?$\<close>\<close>

definition linkedin_body :: rx where
  "linkedin_body =
     Seq (Str (u ''http''))
    (Seq (Opt (Chr (ch CHR ''s'')))
    (Seq (Str (u ''://''))
    (Seq (Opt (Str (u ''www.'')))
    (Seq (Str (u ''linkedin.com/''))
    (Seq (Alt (Str (u ''in'')) (Str (u ''company'')))
    (Seq (Chr (ch CHR ''/''))
    (Seq (Plus (Cls [lower, upper, digit, one CHR ''-'']))
         (Opt (Chr (ch CHR ''/''))))))))))"

definition linkedin_pattern :: rx where
  "linkedin_pattern = Seq Bol (Seq linkedin_body Eol)"

definition validate_domain :: "pystr \<Rightarrow> bool" where
  "validate_domain domain =
     (if domain = [] then False else re_match domain_pattern domain)"

definition validate_email :: "pystr \<Rightarrow> bool" where
  "validate_email email =
     (if email = [] then False else re_match email_pattern email)"

definition validate_linkedin_url :: "pystr \<Rightarrow> bool" where
  "validate_linkedin_url url =
     (if url = [] then True else re_match linkedin_pattern url)"

section \<open>Decoded JSON and the Python operations applied to it\<close>

text \<open>
  \<^verbatim>\<open>response.json()\<close> yields \<^verbatim>\<open>None\<close>, a bool, an int, a float, a str, a list or a dict
  with string keys.  The program observes a float only through its truth value and its
  text, so a float is represented by these two observations.  A dict is an association
  list in insertion order, read with \<open>map_of\<close>.
\<close>

datatype json =
    JNull
  | JBool bool
  | JInt int
  | JFloat bool pystr
  | JStr pystr
  | JArr "json list"
  | JObj "(pystr \<times> json) list"

text \<open>
  Exceptions are values.  The handlers of the client distinguish
  \<^verbatim>\<open>requests.exceptions.RequestException\<close> from every other \<^verbatim>\<open>Exception\<close>; each carries
  the text that \<^verbatim>\<open>str(e)\<close> gives.
\<close>

datatype exn = RequestException pystr | OtherException pystr

definition bind_e :: "exn + 'a \<Rightarrow> ('a \<Rightarrow> exn + 'b) \<Rightarrow> exn + 'b" where
  "bind_e m f = (case m of Inl e \<Rightarrow> Inl e | Inr x \<Rightarrow> f x)"

fun type_name :: "json \<Rightarrow> pystr" where
  "type_name JNull = u ''NoneType''"
| "type_name (JBool b) = u ''bool''"
| "type_name (JInt i) = u ''int''"
| "type_name (JFloat z t) = u ''float''"
| "type_name (JStr s) = u ''str''"
| "type_name (JArr xs) = u ''list''"
| "type_name (JObj kvs) = u ''dict''"

fun truthy :: "json \<Rightarrow> bool" where
  "truthy JNull = False"
| "truthy (JBool b) = b"
| "truthy (JInt i) = (i \<noteq> 0)"
| "truthy (JFloat z t) = z"
| "truthy (JStr s) = (s \<noteq> [])"
| "truthy (JArr xs) = (xs \<noteq> [])"
| "truthy (JObj kvs) = (kvs \<noteq> [])"

text \<open>\<^verbatim>\<open>v.get(k, d)\<close>: only a dict has the method; on any other value an AttributeError is raised.\<close>

fun py_get :: "json \<Rightarrow> pystr \<Rightarrow> json \<Rightarrow> exn + json" where
  "py_get (JObj kvs) k d = Inr (case map_of kvs k of None \<Rightarrow> d | Some v \<Rightarrow> v)"
| "py_get v k d =
     Inl (OtherException ([39] @ type_name v @ [39] @ u '' object has no attribute '' @ [39] @ u ''get'' @ [39]))"

text \<open>\<^verbatim>\<open>v[0]\<close>\<close>

fun py_index0 :: "json \<Rightarrow> exn + json" where
  "py_index0 (JArr []) = Inl (OtherException (u ''list index out of range''))"
| "py_index0 (JArr (x # xs)) = Inr x"
| "py_index0 (JStr []) = Inl (OtherException (u ''string index out of range''))"
| "py_index0 (JStr (c # cs)) = Inr (JStr [c])"
| "py_index0 (JObj kvs) = Inl (OtherException (u ''0''))"
| "py_index0 v = Inl (OtherException ([39] @ type_name v @ [39] @ u '' object is not subscriptable''))"

text \<open>Decimal text of an integer, as \<^verbatim>\<open>str\<close> and the f-strings give it.\<close>

fun str_nat :: "nat \<Rightarrow> pystr" where
  "str_nat n = (if n < 10 then [48 + n] else str_nat (n div 10) @ [48 + n mod 10])"

declare str_nat.simps [simp del]

definition str_int :: "int \<Rightarrow> pystr" where
  "str_int i = (if i < 0 then 45 # str_nat (nat (- i)) else str_nat (nat i))"

text \<open>
  The text an f-string puts for a value.  For a list or a dict it is Python's built-in
  \<^verbatim>\<open>repr\<close>, which is no part of this program and is taken as the parameter \<open>rp\<close>.
\<close>

fun py_str :: "(json \<Rightarrow> pystr) \<Rightarrow> json \<Rightarrow> pystr" where
  "py_str rp JNull = u ''None''"
| "py_str rp (JBool b) = (if b then u ''True'' else u ''False'')"
| "py_str rp (JInt i) = str_int i"
| "py_str rp (JFloat z t) = t"
| "py_str rp (JStr s) = s"
| "py_str rp (JArr xs) = rp (JArr xs)"
| "py_str rp (JObj kvs) = rp (JObj kvs)"

section \<open>The enrichment client\<close>

text \<open>
  \<^verbatim>\<open>requests.post\<close> is the outside world: it is given as a function from the request sent to
  what comes back, an exception or a response.  A response gives its status code, its raw
  text and what \<^verbatim>\<open>response.json()\<close> does, which is to raise or to return the decoded body.
  Every function that can reach the network returns, beside its value, the list of the
  requests it has sent.
\<close>

record request =
  url :: pystr
  params :: "(pystr \<times> pystr) list"
  req_headers :: "(pystr \<times> pystr) list"

record response =
  status_code :: int
  resp_text :: pystr
  resp_json :: "exn + json"

type_synonym http = "request \<Rightarrow> exn + response"

record ApolloAPI =
  api_key :: pystr
  base_url :: pystr
  headers :: "(pystr \<times> pystr) list"

definition ApolloAPI_init :: "pystr \<Rightarrow> ApolloAPI" where
  "ApolloAPI_init key =
     \<lparr> api_key = key,
       base_url = u ''https://api.apollo.io/api/v1'',
       headers = [(u ''Content-Type'', u ''application/json''),
                  (u ''Cache-Control'', u ''no-cache''),
                  (u ''X-Api-Key'', key)] \<rparr>"

record result =
  status :: pystr
  data :: json
  message :: pystr

text \<open>An optional argument is \<^verbatim>\<open>None\<close> or a string; \<^verbatim>\<open>if x:\<close> holds for a non-empty string.\<close>

fun given :: "pystr option \<Rightarrow> bool" where
  "given None = False"
| "given (Some s) = (s \<noteq> [])"

definition opt_param :: "pystr \<Rightarrow> pystr option \<Rightarrow> (pystr \<times> pystr) list" where
  "opt_param k x = (if given x then [(k, the x)] else [])"

definition error_result :: "pystr \<Rightarrow> result" where
  "error_result m = \<lparr> status = u ''error'', data = JObj [], message = m \<rparr>"

text \<open>The request that \<^verbatim>\<open>enrich_company\<close> builds: the URL, the \<^verbatim>\<open>params\<close> dict and the headers.\<close>

definition company_request ::
  "ApolloAPI \<Rightarrow> pystr \<Rightarrow> pystr option \<Rightarrow> pystr option \<Rightarrow> pystr option \<Rightarrow> request" where
  "company_request self domain linkedin_url company_name country_code =
     \<lparr> url = base_url self @ u ''/organizations/enrich'',
       params = [(u ''domain'', domain)]
         @ opt_param (u ''linkedin_url'') linkedin_url
         @ opt_param (u ''name'') company_name
         @ opt_param (u ''country'') country_code,
       req_headers = headers self \<rparr>"

definition enrich_company ::
  "http \<Rightarrow> ApolloAPI \<Rightarrow> pystr \<Rightarrow> pystr option \<Rightarrow> pystr option \<Rightarrow> pystr option
     \<Rightarrow> (exn + result) \<times> request list" where
  "enrich_company post self domain linkedin_url company_name country_code =
     (let req = company_request self domain linkedin_url company_name country_code;
          body =
            bind_e (post req) (\<lambda>response.
              if status_code response = 200
              then bind_e (resp_json response) (\<lambda>decoded.
                   bind_e (py_get decoded (u ''organization'') (JObj [])) (\<lambda>d.
                     Inr \<lparr> status = u ''success'', data = d,
                           message = u ''Company data enriched successfully'' \<rparr>))
              else Inr (error_result
                     (u ''API Error: '' @ str_int (status_code response) @ u '' - ''
                        @ resp_text response)))
      in (case body of
            Inr r \<Rightarrow> Inr r
          | Inl (RequestException e) \<Rightarrow> Inr (error_result (u ''Request failed: '' @ e))
          | Inl (OtherException e) \<Rightarrow> Inr (error_result (u ''Unexpected error: '' @ e)),
          [req]))"

definition contact_request ::
  "ApolloAPI \<Rightarrow> pystr \<Rightarrow> pystr option \<Rightarrow> pystr option \<Rightarrow> pystr option \<Rightarrow> request" where
  "contact_request self email linkedin_url first_name last_name =
     \<lparr> url = base_url self @ u ''/people/match'',
       params = [(u ''email'', email)]
         @ opt_param (u ''linkedin_url'') linkedin_url
         @ opt_param (u ''first_name'') first_name
         @ opt_param (u ''last_name'') last_name,
       req_headers = headers self \<rparr>"

definition enrich_contact ::
  "http \<Rightarrow> ApolloAPI \<Rightarrow> pystr \<Rightarrow> pystr option \<Rightarrow> pystr option \<Rightarrow> pystr option
     \<Rightarrow> (exn + result) \<times> request list" where
  "enrich_contact post self email linkedin_url first_name last_name =
     (let req = contact_request self email linkedin_url first_name last_name;
          body =
            bind_e (post req) (\<lambda>response.
              if status_code response = 200
              then bind_e (resp_json response) (\<lambda>decoded.
                   bind_e (py_get decoded (u ''person'') (JObj [])) (\<lambda>d.
                     Inr \<lparr> status = u ''success'', data = d,
                           message = u ''Contact data enriched successfully'' \<rparr>))
              else Inr (error_result
                     (u ''API Error: '' @ str_int (status_code response) @ u '' - ''
                        @ resp_text response)))
      in (case body of
            Inr r \<Rightarrow> Inr r
          | Inl (RequestException e) \<Rightarrow> Inr (error_result (u ''Request failed: '' @ e))
          | Inl (OtherException e) \<Rightarrow> Inr (error_result (u ''Unexpected error: '' @ e)),
          [req]))"

section \<open>The entry points: pre-flight checks, the call, the report\<close>

text \<open>
  An f-string is evaluated from left to right; the first of its parts that raises ends the
  evaluation.  \<open>cat\<close> joins the parts in that way.  \<open>shown rp data k\<close> is the part
  \<^verbatim>\<open>{data.get(k, 'N/A')}\<close>.
\<close>

fun cat :: "(exn + pystr) list \<Rightarrow> exn + pystr" where
  "cat [] = Inr []"
| "cat (p # ps) = bind_e p (\<lambda>s. bind_e (cat ps) (\<lambda>t. Inr (s @ t)))"

definition NA :: pystr where
  "NA = u ''N/A''"

definition shown :: "(json \<Rightarrow> pystr) \<Rightarrow> json \<Rightarrow> pystr \<Rightarrow> exn + pystr" where
  "shown rp d k = bind_e (py_get d k (JStr NA)) (\<lambda>v. Inr (py_str rp v))"

text \<open>
  \<^verbatim>\<open>{data.get('organization', {}).get('name', 'N/A') if data.get('organization') else 'N/A'}\<close>
\<close>

definition shown_company :: "(json \<Rightarrow> pystr) \<Rightarrow> json \<Rightarrow> exn + pystr" where
  "shown_company rp d =
     bind_e (py_get d (u ''organization'') JNull) (\<lambda>c.
       if truthy c
       then bind_e (py_get d (u ''organization'') (JObj [])) (\<lambda>org.
            bind_e (py_get org (u ''name'') (JStr NA)) (\<lambda>v. Inr (py_str rp v)))
       else Inr NA)"

text \<open>
  \<^verbatim>\<open>{data.get('phone_numbers', [{}])[0].get('raw_number', 'N/A') if data.get('phone_numbers') else 'N/A'}\<close>
\<close>

definition shown_phone :: "(json \<Rightarrow> pystr) \<Rightarrow> json \<Rightarrow> exn + pystr" where
  "shown_phone rp d =
     bind_e (py_get d (u ''phone_numbers'') JNull) (\<lambda>c.
       if truthy c
       then bind_e (py_get d (u ''phone_numbers'') (JArr [JObj []])) (\<lambda>ps.
            bind_e (py_index0 ps) (\<lambda>p.
            bind_e (py_get p (u ''raw_number'') (JStr NA)) (\<lambda>v. Inr (py_str rp v))))
       else Inr NA)"

definition company_report :: "(json \<Rightarrow> pystr) \<Rightarrow> result \<Rightarrow> exn + pystr" where
  "company_report rp r =
     (let d = data r in
      cat [Inr (check_mark @ u '' '' @ message r @ [10, 10]),
           Inr (bar_chart @ u '' **Enriched Company Data:**'' @ [10]),
           Inr (bullet @ u '' **Name:** ''), shown rp d (u ''name''), Inr [10],
           Inr (bullet @ u '' **Domain:** ''), shown rp d (u ''domain''), Inr [10],
           Inr (bullet @ u '' **Website:** ''), shown rp d (u ''website_url''), Inr [10],
           Inr (bullet @ u '' **LinkedIn:** ''), shown rp d (u ''linkedin_url''), Inr [10],
           Inr (bullet @ u '' **Industry:** ''), shown rp d (u ''industry''), Inr [10],
           Inr (bullet @ u '' **Company Size:** ''), shown rp d (u ''estimated_num_employees''),
             Inr [10],
           Inr (bullet @ u '' **Location:** ''), shown rp d (u ''city''), Inr (u '', ''),
             shown rp d (u ''state''), Inr (u '', ''), shown rp d (u ''country''), Inr [10],
           Inr (bullet @ u '' **Founded:** ''), shown rp d (u ''founded_year''), Inr [10],
           Inr (bullet @ u '' **Description:** ''), shown rp d (u ''short_description''),
             Inr [10]])"

definition contact_report :: "(json \<Rightarrow> pystr) \<Rightarrow> result \<Rightarrow> exn + pystr" where
  "contact_report rp r =
     (let d = data r in
      cat [Inr (check_mark @ u '' '' @ message r @ [10, 10]),
           Inr (bust @ u '' **Enriched Contact Data:**'' @ [10]),
           Inr (bullet @ u '' **Name:** ''), shown rp d (u ''first_name''), Inr (u '' ''),
             shown rp d (u ''last_name''), Inr [10],
           Inr (bullet @ u '' **Email:** ''), shown rp d (u ''email''), Inr [10],
           Inr (bullet @ u '' **LinkedIn:** ''), shown rp d (u ''linkedin_url''), Inr [10],
           Inr (bullet @ u '' **Title:** ''), shown rp d (u ''title''), Inr [10],
           Inr (bullet @ u '' **Company:** ''), shown_company rp d, Inr [10],
           Inr (bullet @ u '' **Location:** ''), shown rp d (u ''city''), Inr (u '', ''),
             shown rp d (u ''state''), Inr (u '', ''), shown rp d (u ''country''), Inr [10],
           Inr (bullet @ u '' **Phone:** ''), shown_phone rp d, Inr [10],
           Inr (bullet @ u '' **Twitter:** ''), shown rp d (u ''twitter_url''), Inr [10],
           Inr (bullet @ u '' **Bio:** ''), shown rp d (u ''headline''), Inr [10]])"

text \<open>The texts of the pre-flight errors.\<close>

definition err_api_key :: pystr where
  "err_api_key = cross_mark @ u '' Error: Please enter your Apollo API key''"

definition err_domain_required :: pystr where
  "err_domain_required = cross_mark @ u '' Error: Company domain is required''"

definition err_domain_format :: pystr where
  "err_domain_format = cross_mark @ u '' Error: Please enter a valid domain (e.g., example.com)''"

definition err_company_linkedin :: pystr where
  "err_company_linkedin = cross_mark
     @ u '' Error: Please enter a valid LinkedIn URL (e.g., https://linkedin.com/company/example)''"

definition err_email_required :: pystr where
  "err_email_required = cross_mark @ u '' Error: Email address is required''"

definition err_email_format :: pystr where
  "err_email_format = cross_mark @ u '' Error: Please enter a valid email address''"

definition err_contact_linkedin :: pystr where
  "err_contact_linkedin = cross_mark
     @ u '' Error: Please enter a valid LinkedIn URL (e.g., https://linkedin.com/in/username)''"

text \<open>\<^verbatim>\<open>x.strip() if x else None\<close>\<close>

definition strip_if :: "pystr \<Rightarrow> pystr option" where
  "strip_if x = (if x \<noteq> [] then Some (strip x) else None)"

definition enrich_company_data ::
  "(json \<Rightarrow> pystr) \<Rightarrow> http \<Rightarrow> pystr \<Rightarrow> pystr \<Rightarrow> pystr \<Rightarrow> pystr \<Rightarrow> pystr
     \<Rightarrow> (exn + pystr) \<times> request list" where
  "enrich_company_data rp post key domain linkedin_url company_name country_code =
     (if strip key = [] then (Inr err_api_key, [])
      else if strip domain = [] then (Inr err_domain_required, [])
      else if \<not> validate_domain domain then (Inr err_domain_format, [])
      else if linkedin_url \<noteq> [] \<and> \<not> validate_linkedin_url linkedin_url
        then (Inr err_company_linkedin, [])
      else
        (let apollo = ApolloAPI_init key;
             (res, sent) = enrich_company post apollo (strip domain) (strip_if linkedin_url)
                             (strip_if company_name) (strip_if country_code)
         in (bind_e res (\<lambda>r.
               if status r = u ''success'' then company_report rp r
               else Inr (cross_mark @ u '' '' @ message r)),
             sent)))"

definition enrich_contact_data ::
  "(json \<Rightarrow> pystr) \<Rightarrow> http \<Rightarrow> pystr \<Rightarrow> pystr \<Rightarrow> pystr \<Rightarrow> pystr \<Rightarrow> pystr
     \<Rightarrow> (exn + pystr) \<times> request list" where
  "enrich_contact_data rp post key email linkedin_url first_name last_name =
     (if strip key = [] then (Inr err_api_key, [])
      else if strip email = [] then (Inr err_email_required, [])
      else if \<not> validate_email email then (Inr err_email_format, [])
      else if linkedin_url \<noteq> [] \<and> \<not> validate_linkedin_url linkedin_url
        then (Inr err_contact_linkedin, [])
      else
        (let apollo = ApolloAPI_init key;
             (res, sent) = enrich_contact post apollo (strip email) (strip_if linkedin_url)
                             (strip_if first_name) (strip_if last_name)
         in (bind_e res (\<lambda>r.
               if status r = u ''success'' then contact_report rp r
               else Inr (cross_mark @ u '' '' @ message r)),
             sent)))"

section \<open>What the specification says of the patterns\<close>

text \<open>
  The specification reads a pattern \<^verbatim>\<open>^p$\<close> as a description of whole strings: the
  language of \<open>p\<close>, in which the two anchors stand for the two ends of the string and
  consume nothing.
\<close>

fun lang :: "rx \<Rightarrow> pystr set" where
  "lang Bol = {[]}"
| "lang Eol = {[]}"
| "lang (Chr c) = {[c]}"
| "lang (Cls rs) = {[c] | c. in_cls rs c}"
| "lang (Seq a b) = {v @ w | v w. v \<in> lang a \<and> w \<in> lang b}"
| "lang (Alt a b) = lang a \<union> lang b"
| "lang (Rep r lo hi) =
     {concat ws | ws. set ws \<subseteq> lang r \<and> lo \<le> length ws \<and>
                      (case hi of None \<Rightarrow> True | Some h \<Rightarrow> length ws \<le> h)}"

text \<open>A pattern body without anchors whose counted repetitions have ordered bounds.\<close>

fun plain :: "rx \<Rightarrow> bool" where
  "plain Bol = False"
| "plain Eol = False"
| "plain (Chr c) = True"
| "plain (Cls rs) = True"
| "plain (Seq a b) = (plain a \<and> plain b)"
| "plain (Alt a b) = (plain a \<and> plain b)"
| "plain (Rep r lo hi) = (plain r \<and> (case hi of None \<Rightarrow> True | Some h \<Rightarrow> lo \<le> h))"

text \<open>
  The prose of the specification on domains: a label of 1 to 63 alphanumeric or hyphen
  characters that neither starts nor ends with a hyphen, a dot, and an alphabetic top-level
  domain of length at least 2.  A label holds no dot, so the first dot of the string ends it.
  \<open>domain_shape_loose\<close> is the same without the condition on the last character of the label.
\<close>

definition is_alpha :: "nat \<Rightarrow> bool" where
  "is_alpha c = ((65 \<le> c \<and> c \<le> 90) \<or> (97 \<le> c \<and> c \<le> 122))"

definition is_alnum :: "nat \<Rightarrow> bool" where
  "is_alnum c = (is_alpha c \<or> (48 \<le> c \<and> c \<le> 57))"

definition label_chars :: "pystr \<Rightarrow> bool" where
  "label_chars l = (1 \<le> length l \<and> length l \<le> 63 \<and> list_all (\<lambda>c. is_alnum c \<or> c = 45) l)"

definition tld_ok :: "pystr \<Rightarrow> bool" where
  "tld_ok t = (2 \<le> length t \<and> list_all is_alpha t)"

definition domain_shape :: "pystr \<Rightarrow> bool" where
  "domain_shape s =
     (case dropWhile (\<lambda>c. c \<noteq> 46) s of
        [] \<Rightarrow> False
      | d # t \<Rightarrow> (let l = takeWhile (\<lambda>c. c \<noteq> 46) s
                 in label_chars l \<and> hd l \<noteq> 45 \<and> last l \<noteq> 45 \<and> tld_ok t))"

definition domain_shape_loose :: "pystr \<Rightarrow> bool" where
  "domain_shape_loose s =
     (case dropWhile (\<lambda>c. c \<noteq> 46) s of
        [] \<Rightarrow> False
      | d # t \<Rightarrow> (let l = takeWhile (\<lambda>c. c \<noteq> 46) s
                 in label_chars l \<and> hd l \<noteq> 45 \<and> tld_ok t))"

text \<open>
  A string has a dot-separated alphabetic suffix of length at least 2 when its longest
  alphabetic suffix has two characters or more and stands right after a dot.
\<close>

definition has_alpha_suffix :: "pystr \<Rightarrow> bool" where
  "has_alpha_suffix s =
     (case dropWhile is_alpha (rev s) of
        [] \<Rightarrow> False
      | c # p \<Rightarrow> c = 46 \<and> 2 \<le> length (takeWhile is_alpha (rev s)))"

text \<open>The string without one newline at its end, if it has one.\<close>

definition chomp :: "pystr \<Rightarrow> pystr" where
  "chomp s = (if s \<noteq> [] \<and> last s = 10 then butlast s else s)"

text \<open>
  What the report shows for a field read from a dict payload by its key, as the code has
  it: the fallback for an absent key, the text of the value for a present one.
\<close>

definition field_text :: "(json \<Rightarrow> pystr) \<Rightarrow> (pystr \<times> json) list \<Rightarrow> pystr \<Rightarrow> pystr" where
  "field_text rp kvs k = (case map_of kvs k of None \<Rightarrow> NA | Some v \<Rightarrow> py_str rp v)"

section \<open>The matcher computes the language\<close>

text \<open>
  \<open>pw L k\<close> is the set of the concatenations of \<open>k\<close> words of \<open>L\<close>; \<open>ends L st\<close> is the set
  of the states reached from \<open>st\<close> by reading a word of \<open>L\<close>.
\<close>

fun pw :: "pystr set \<Rightarrow> nat \<Rightarrow> pystr set" where
  "pw L 0 = {[]}"
| "pw L (Suc k) = {v @ w | v w. v \<in> L \<and> w \<in> pw L k}"

definition ends :: "pystr set \<Rightarrow> mstate \<Rightarrow> mstate set" where
  "ends L st = {(fst st + length v, w) | v w. snd st = v @ w \<and> v \<in> L}"

definition tracks :: "(mstate \<Rightarrow> mstate list) \<Rightarrow> pystr set \<Rightarrow> bool" where
  "tracks f L = (\<forall>st. set (f st) = ends L st)"

lemma ends_iff: "(m, w) \<in> ends L (n, s) \<longleftrightarrow> (\<exists>v. s = v @ w \<and> v \<in> L \<and> m = n + length v)"
  by (auto simp: ends_def)

lemma ends_I: "s = v @ w \<Longrightarrow> v \<in> L \<Longrightarrow> m = n + length v \<Longrightarrow> (m, w) \<in> ends L (n, s)"
  by (auto simp: ends_iff)

lemma pw_concat: "pw L k = {concat ws | ws. set ws \<subseteq> L \<and> length ws = k}"
proof (induction k)
  case 0
  show ?case by auto
next
  case (Suc k)
  show ?case
  proof (rule set_eqI, rule iffI)
    fix x assume "x \<in> pw L (Suc k)"
    then obtain v w where x: "x = v @ w" "v \<in> L" "w \<in> pw L k" by auto
    with Suc obtain ws where "w = concat ws" "set ws \<subseteq> L" "length ws = k" by auto
    with x have "x = concat (v # ws) \<and> set (v # ws) \<subseteq> L \<and> length (v # ws) = Suc k" by simp
    then show "x \<in> {concat ws | ws. set ws \<subseteq> L \<and> length ws = Suc k}" by blast
  next
    fix x assume "x \<in> {concat ws | ws. set ws \<subseteq> L \<and> length ws = Suc k}"
    then obtain ws where ws: "x = concat ws" "set ws \<subseteq> L" "length ws = Suc k" by auto
    then obtain v vs where "ws = v # vs" by (cases ws) auto
    with ws Suc show "x \<in> pw L (Suc k)" by auto
  qed
qed

lemma pw_add: "pw L (a + b) = {v @ w | v w. v \<in> pw L a \<and> w \<in> pw L b}"
proof (induction a)
  case 0
  show ?case by auto
next
  case (Suc a)
  show ?case
    apply (simp add: Suc)
    apply (rule set_eqI)
    apply (rule iffI)
     apply clarsimp
     apply (metis append.assoc)
    apply clarsimp
    apply (metis append.assoc)
    done
qed

lemma pw_short: "v \<in> pw L j \<Longrightarrow> \<exists>i\<le>length v. v \<in> pw L i"
proof (induction j arbitrary: v)
  case 0
  then show ?case by auto
next
  case (Suc j)
  then obtain a w where v: "v = a @ w" "a \<in> L" "w \<in> pw L j" by auto
  with Suc.IH obtain i where i: "i \<le> length w" "w \<in> pw L i" by blast
  show ?case
  proof (cases "a = []")
    case True
    with v i show ?thesis by auto
  next
    case False
    then have "1 \<le> length a" by (cases a) auto
    with i(1) have "Suc i \<le> length a + length w" by linarith
    with v i have "Suc i \<le> length v" "v \<in> pw L (Suc i)" by auto
    then show ?thesis by blast
  qed
qed

lemma set_rep_exact:
  assumes "tracks f L"
  shows "set (rep_exact f k st) = ends (pw L k) st"
proof (induction k arbitrary: st)
  case 0
  show ?case by (cases st) (auto simp: ends_def)
next
  case (Suc k)
  obtain n s where st: "st = (n, s)" by (cases st)
  have f: "set (f (n, s)) = ends L (n, s)" using assms by (simp add: tracks_def)
  show ?case
    unfolding st
    apply (simp add: Suc f)
    apply (rule set_eqI)
    apply (rule iffI)
     apply (clarsimp simp: ends_def)
     apply (metis append.assoc length_append add.assoc)
    apply (clarsimp simp: ends_def)
    apply (metis append.assoc length_append add.assoc)
    done
qed

lemma set_rep_upto:
  assumes "tracks f L"
  shows "set (rep_upto f k st) = (\<Union>j\<le>k. ends (pw L j) st)"
proof (induction k arbitrary: st)
  case 0
  show ?case by (cases st) (auto simp: ends_def)
next
  case (Suc k)
  obtain n s where st: "st = (n, s)" by (cases st)
  have f: "set (f (n, s)) = ends L (n, s)" using assms by (simp add: tracks_def)
  have "(\<Union>j\<le>Suc k. ends (pw L j) (n, s)) =
        insert (n, s) (\<Union>st'\<in>ends L (n, s). \<Union>j\<le>k. ends (pw L j) st')"
  proof (rule set_eqI, rule iffI)
    fix x assume "x \<in> (\<Union>j\<le>Suc k. ends (pw L j) (n, s))"
    then obtain j where j: "j \<le> Suc k" "x \<in> ends (pw L j) (n, s)" by auto
    show "x \<in> insert (n, s) (\<Union>st'\<in>ends L (n, s). \<Union>j\<le>k. ends (pw L j) st')"
    proof (cases j)
      case 0
      with j show ?thesis by (auto simp: ends_def)
    next
      case (Suc i)
      with j obtain a w r where x: "x = (n + length (a @ w), r)" "s = (a @ w) @ r" "a \<in> L" "w \<in> pw L i"
        by (auto simp: ends_def)
      then have "(n + length a, w @ r) \<in> ends L (n, s)" by (auto simp: ends_def)
      moreover have "x \<in> ends (pw L i) (n + length a, w @ r)" using x by (auto simp: ends_def)
      moreover have "i \<le> k" using j Suc by simp
      ultimately show ?thesis by blast
    qed
  next
    fix x assume "x \<in> insert (n, s) (\<Union>st'\<in>ends L (n, s). \<Union>j\<le>k. ends (pw L j) st')"
    then consider "x = (n, s)" | st' j where "st' \<in> ends L (n, s)" "j \<le> k" "x \<in> ends (pw L j) st'"
      by auto
    then show "x \<in> (\<Union>j\<le>Suc k. ends (pw L j) (n, s))"
    proof cases
      case 1
      have "(n, s) \<in> ends (pw L 0) (n, s)" by (simp add: ends_def)
      with 1 show ?thesis by blast
    next
      case 2
      then obtain a w r where "st' = (n + length a, w @ r)" "s = a @ w @ r" "a \<in> L"
        "w \<in> pw L j" "x = (n + length a + length w, r)"
        by (auto simp: ends_def)
      then have "x \<in> ends (pw L (Suc j)) (n, s)"
        by (auto intro!: ends_I [of _ "a @ w"])
      with 2 show ?thesis by (meson UN_I atMost_iff Suc_le_mono)
    qed
  qed
  then show ?case unfolding st by (simp add: Suc f)
qed

lemma rmatch_lang: "plain r \<Longrightarrow> tracks (rmatch r) (lang r)"
proof (induction r)
  case Bol
  then show ?case by simp
next
  case Eol
  then show ?case by simp
next
  case (Chr c)
  show ?case
    unfolding tracks_def
  proof
    fix st :: mstate
    obtain n s where st: "st = (n, s)" by (cases st)
    show "set (rmatch (Chr c) st) = ends (lang (Chr c)) st"
      unfolding st by (cases s) (auto simp: ends_def)
  qed
next
  case (Cls rs)
  show ?case
    unfolding tracks_def
  proof
    fix st :: mstate
    obtain n s where st: "st = (n, s)" by (cases st)
    show "set (rmatch (Cls rs) st) = ends (lang (Cls rs)) st"
      unfolding st by (cases s) (auto simp: ends_def)
  qed
next
  case (Seq a b)
  then have a: "\<And>st. set (rmatch a st) = ends (lang a) st"
    and b: "\<And>st. set (rmatch b st) = ends (lang b) st"
    by (auto simp: tracks_def)
  show ?case
    unfolding tracks_def
  proof
    fix st :: mstate
    obtain n s where st: "st = (n, s)" by (cases st)
    have "(\<Union>st'\<in>ends (lang a) (n, s). ends (lang b) st') = ends (lang (Seq a b)) (n, s)"
    proof (rule set_eqI, rule iffI)
      fix x assume "x \<in> (\<Union>st'\<in>ends (lang a) (n, s). ends (lang b) st')"
      then obtain v w r where "s = v @ w @ r" "v \<in> lang a" "w \<in> lang b"
        "x = (n + length v + length w, r)"
        by (auto simp: ends_def)
      then show "x \<in> ends (lang (Seq a b)) (n, s)"
        by (auto intro!: ends_I [of _ "v @ w"])
    next
      fix x assume "x \<in> ends (lang (Seq a b)) (n, s)"
      then obtain v w r where x: "s = (v @ w) @ r" "v \<in> lang a" "w \<in> lang b"
        "x = (n + length (v @ w), r)"
        by (auto simp: ends_def)
      then have "(n + length v, w @ r) \<in> ends (lang a) (n, s)" by (auto simp: ends_def)
      moreover have "x \<in> ends (lang b) (n + length v, w @ r)" using x by (auto simp: ends_def)
      ultimately show "x \<in> (\<Union>st'\<in>ends (lang a) (n, s). ends (lang b) st')" by blast
    qed
    then show "set (rmatch (Seq a b) st) = ends (lang (Seq a b)) st"
      unfolding st by (simp add: a b)
  qed
next
  case (Alt a b)
  then show ?case by (auto simp: tracks_def ends_def)
next
  case (Rep r lo hi)
  then have tr: "tracks (rmatch r) (lang r)" by simp
  note ex = set_rep_exact [OF tr]
  note up = set_rep_upto [OF tr]
  let ?L = "lang r"
  show ?case
    unfolding tracks_def
  proof
    fix st :: mstate
    obtain n s where st: "st = (n, s)" by (cases st)
    show "set (rmatch (Rep r lo hi) st) = ends (lang (Rep r lo hi)) st"
    proof (rule set_eqI, rule iffI)
      fix x assume x: "x \<in> set (rmatch (Rep r lo hi) st)"
      have "\<exists>st' j. st' \<in> ends (pw ?L lo) (n, s) \<and> x \<in> ends (pw ?L j) st' \<and>
              (case hi of None \<Rightarrow> True | Some h \<Rightarrow> j \<le> h - lo)"
      proof (cases hi)
        case None
        with x show ?thesis unfolding st by (fastforce simp: ex up)
      next
        case (Some h)
        with x show ?thesis unfolding st by (fastforce simp: ex up)
      qed
      then obtain st' j where "st' \<in> ends (pw ?L lo) (n, s)" "x \<in> ends (pw ?L j) st'"
        "case hi of None \<Rightarrow> True | Some h \<Rightarrow> j \<le> h - lo"
        by blast
      then obtain v w t where vw: "s = v @ w @ t" "v \<in> pw ?L lo" "w \<in> pw ?L j"
        "x = (n + length v + length w, t)" and j: "case hi of None \<Rightarrow> True | Some h \<Rightarrow> j \<le> h - lo"
        by (auto simp: ends_def)
      from vw have "v @ w \<in> pw ?L (lo + j)" by (auto simp: pw_add)
      then obtain ws where ws: "v @ w = concat ws" "set ws \<subseteq> ?L" "length ws = lo + j"
        by (auto simp: pw_concat)
      from Rep.prems j have "case hi of None \<Rightarrow> True | Some h \<Rightarrow> lo + j \<le> h"
        by (auto split: option.splits)
      with ws have "v @ w \<in> lang (Rep r lo hi)" by (auto split: option.splits)
      with vw show "x \<in> ends (lang (Rep r lo hi)) st"
        unfolding st by (auto simp del: lang.simps intro!: ends_I [of _ "v @ w"])
    next
      fix x assume "x \<in> ends (lang (Rep r lo hi)) st"
      then obtain ws t where ws: "s = concat ws @ t" "set ws \<subseteq> ?L" "lo \<le> length ws"
        "case hi of None \<Rightarrow> True | Some h \<Rightarrow> length ws \<le> h" "x = (n + length (concat ws), t)"
        unfolding st by (auto simp: ends_def)
      define v where "v = concat (take lo ws)"
      define w where "w = concat (drop lo ws)"
      have cw: "concat ws = v @ w" unfolding v_def w_def by (metis append_take_drop_id concat_append)
      have v: "v \<in> pw ?L lo" unfolding v_def pw_concat using ws(2,3)
        by (auto intro!: exI [of _ "take lo ws"] dest: in_set_takeD)
      have w0: "w \<in> pw ?L (length ws - lo)" unfolding w_def pw_concat using ws(2)
        by (auto intro!: exI [of _ "drop lo ws"] dest: in_set_dropD)
      obtain j where j: "w \<in> pw ?L j" "case hi of None \<Rightarrow> j \<le> length (w @ t) | Some h \<Rightarrow> j \<le> h - lo"
      proof (cases hi)
        case None
        from pw_short [OF w0] obtain i where "i \<le> length w" "w \<in> pw ?L i" by blast
        with None that [of i] show ?thesis by simp
      next
        case (Some h)
        with ws(4) that [of "length ws - lo"] w0 show ?thesis by simp
      qed
      have 1: "(n + length v, w @ t) \<in> ends (pw ?L lo) (n, s)"
        using ws(1) cw v by (auto simp: ends_iff)
      have 2: "x \<in> ends (pw ?L j) (n + length v, w @ t)"
        using ws(5) cw j(1) by (auto simp: ends_iff)
      show "x \<in> set (rmatch (Rep r lo hi) st)"
        unfolding st using 1 2 j(2)
        by (auto simp: ex up split: option.splits intro!: bexI [of _ "(n + length v, w @ t)"])
    qed
  qed
qed

lemma set_rmatch: "plain r \<Longrightarrow> set (rmatch r st) = ends (lang r) st"
  using rmatch_lang [of r] unfolding tracks_def by blast

lemma bex_ends:
  "(\<exists>st\<in>ends L (n, s). Q st) \<longleftrightarrow> (\<exists>v w. s = v @ w \<and> v \<in> L \<and> Q (n + length v, w))"
  unfolding ends_def by force

lemma re_match_anchored:
  assumes "plain p"
  shows "re_match (Seq Bol (Seq p Eol)) s \<longleftrightarrow> s \<in> lang p \<or> (\<exists>w. s = w @ [10] \<and> w \<in> lang p)"
proof -
  have "re_match (Seq Bol (Seq p Eol)) s \<longleftrightarrow> (\<exists>st \<in> set (rmatch p (0, s)). snd st = [] \<or> snd st = [10])"
    by (auto simp: re_match_def)
  also have "\<dots> \<longleftrightarrow> (\<exists>st \<in> ends (lang p) (0, s). snd st = [] \<or> snd st = [10])"
    by (simp add: set_rmatch [OF assms])
  also have "\<dots> \<longleftrightarrow> s \<in> lang p \<or> (\<exists>w. s = w @ [10] \<and> w \<in> lang p)"
    by (auto simp: bex_ends)
  finally show ?thesis .
qed

lemma lang_anchored: "lang (Seq Bol (Seq p Eol)) = lang p"
  by simp

lemma lang_code:
  assumes "plain p"
  shows "s \<in> lang p \<longleftrightarrow> list_ex (\<lambda>st. snd st = []) (rmatch p (0, s))"
proof -
  have "list_ex (\<lambda>st. snd st = []) (rmatch p (0, s)) \<longleftrightarrow> (\<exists>st \<in> ends (lang p) (0, s). snd st = [])"
    by (simp add: list_ex_iff set_rmatch [OF assms])
  also have "\<dots> \<longleftrightarrow> s \<in> lang p"
    by (auto simp: bex_ends)
  finally show ?thesis by simp
qed

lemma rep_upto_numeral:
  "rep_upto f (numeral k) st = st # concat (map (rep_upto f (pred_numeral k)) (f st))"
  by (simp add: numeral_eq_Suc)

lemma rep_exact_numeral:
  "rep_exact f (numeral k) st = concat (map (rep_exact f (pred_numeral k)) (f st))"
  by (simp add: numeral_eq_Suc)

lemmas pattern_defs =
  domain_pattern_def domain_body_def email_pattern_def email_body_def
  linkedin_pattern_def linkedin_body_def Opt_def Plus_def u_def ch_def
  lower_def upper_def digit_def one_def

lemmas run_match = rep_upto_numeral rep_exact_numeral re_match_def pattern_defs in_cls_def

lemma plain_bodies: "plain domain_body" "plain email_body" "plain linkedin_body"
  by (simp_all add: pattern_defs)

lemma validate_domain_iff:
  "validate_domain s \<longleftrightarrow> s \<in> lang domain_body \<or> (\<exists>w. s = w @ [10] \<and> w \<in> lang domain_body)"
proof (cases "s = []")
  case True
  have "[] \<notin> lang domain_body" by (simp add: lang_code plain_bodies) (simp add: run_match)
  with True show ?thesis by (simp add: validate_domain_def)
next
  case False
  then show ?thesis
    by (simp add: validate_domain_def domain_pattern_def re_match_anchored plain_bodies)
qed

lemma validate_email_iff:
  "validate_email s \<longleftrightarrow> s \<in> lang email_body \<or> (\<exists>w. s = w @ [10] \<and> w \<in> lang email_body)"
proof (cases "s = []")
  case True
  have "[] \<notin> lang email_body" by (simp add: lang_code plain_bodies) (simp add: run_match)
  with True show ?thesis by (simp add: validate_email_def)
next
  case False
  then show ?thesis
    by (simp add: validate_email_def email_pattern_def re_match_anchored plain_bodies)
qed

lemma validate_linkedin_url_iff:
  "validate_linkedin_url s \<longleftrightarrow>
     s = [] \<or> s \<in> lang linkedin_body \<or> (\<exists>w. s = w @ [10] \<and> w \<in> lang linkedin_body)"
  by (simp add: validate_linkedin_url_def linkedin_pattern_def re_match_anchored plain_bodies)

section \<open>The languages of the three patterns\<close>

declare lang.simps(7) [simp del]

lemma concat_singletons:
  "set ws \<subseteq> {[c] | c. P c} \<Longrightarrow> length (concat ws) = length ws \<and> list_all P (concat ws)"
  by (induction ws) auto

lemma lang_rep_cls:
  "lang (Rep (Cls rs) lo hi) =
     {v. list_all (in_cls rs) v \<and> lo \<le> length v \<and>
         (case hi of None \<Rightarrow> True | Some h \<Rightarrow> length v \<le> h)}"
proof (rule set_eqI, rule iffI)
  fix v assume "v \<in> lang (Rep (Cls rs) lo hi)"
  then obtain ws where ws: "v = concat ws" "set ws \<subseteq> {[c] | c. in_cls rs c}" "lo \<le> length ws"
    "case hi of None \<Rightarrow> True | Some h \<Rightarrow> length ws \<le> h"
    by (auto simp: lang.simps)
  from concat_singletons [OF ws(2)] ws
  show "v \<in> {v. list_all (in_cls rs) v \<and> lo \<le> length v \<and>
         (case hi of None \<Rightarrow> True | Some h \<Rightarrow> length v \<le> h)}"
    by (auto split: option.splits)
next
  fix v assume v: "v \<in> {v. list_all (in_cls rs) v \<and> lo \<le> length v \<and>
         (case hi of None \<Rightarrow> True | Some h \<Rightarrow> length v \<le> h)}"
  let ?ws = "map (\<lambda>c. [c]) v"
  have "v = concat ?ws" by (induction v) auto
  moreover have "set ?ws \<subseteq> lang (Cls rs)" using v by (auto simp: list_all_iff)
  moreover have "length ?ws = length v" by simp
  moreover have "case hi of None \<Rightarrow> True | Some h \<Rightarrow> length ?ws \<le> h"
    using v by (auto split: option.splits)
  moreover have "lo \<le> length ?ws" using v by simp
  ultimately have "\<exists>ws. v = concat ws \<and> set ws \<subseteq> lang (Cls rs) \<and> lo \<le> length ws \<and>
      (case hi of None \<Rightarrow> True | Some h \<Rightarrow> length ws \<le> h)"
    by blast
  then show "v \<in> lang (Rep (Cls rs) lo hi)" by (simp add: lang.simps)
qed

lemma lang_Opt: "lang (Opt r) = insert [] (lang r)"
proof (rule set_eqI, rule iffI)
  fix v assume "v \<in> lang (Opt r)"
  then obtain ws where ws: "v = concat ws" "set ws \<subseteq> lang r" "length ws \<le> 1"
    by (auto simp: Opt_def lang.simps)
  show "v \<in> insert [] (lang r)"
  proof (cases ws)
    case Nil
    with ws show ?thesis by simp
  next
    case (Cons a as)
    with ws have "as = []" by simp
    with Cons ws show ?thesis by simp
  qed
next
  fix v assume "v \<in> insert [] (lang r)"
  then consider "v = []" | "v \<in> lang r" by auto
  then show "v \<in> lang (Opt r)"
  proof cases
    case 1
    then show ?thesis by (auto simp: Opt_def lang.simps intro!: exI [of _ "[]"])
  next
    case 2
    then show ?thesis by (auto simp: Opt_def lang.simps intro!: exI [of _ "[v]"])
  qed
qed

lemma lang_Str: "cs \<noteq> [] \<Longrightarrow> lang (Str cs) = {cs}"
  by (induction cs rule: Str.induct) (auto simp: lang.simps)

lemma cls_alnum: "in_cls [lower, upper, digit] = is_alnum"
  by (rule ext)
     (auto simp: in_cls_def lower_def upper_def digit_def ch_def is_alnum_def is_alpha_def)

lemma cls_alnum_hyphen:
  "in_cls [lower, upper, digit, one CHR ''-''] = (\<lambda>c. is_alnum c \<or> c = 45)"
  by (rule ext)
     (auto simp: in_cls_def lower_def upper_def digit_def one_def ch_def is_alnum_def
        is_alpha_def)

lemma cls_alpha: "in_cls [lower, upper] = is_alpha"
  by (rule ext) (auto simp: in_cls_def lower_def upper_def ch_def is_alpha_def)

lemma lang_SeqI: "v \<in> lang a \<Longrightarrow> w \<in> lang b \<Longrightarrow> v @ w \<in> lang (Seq a b)"
  by auto

lemma lang_SeqE:
  assumes "x \<in> lang (Seq a b)"
  obtains v w where "x = v @ w" "v \<in> lang a" "w \<in> lang b"
  using assms by auto

lemma lang_domain_body:
  "w \<in> lang domain_body \<longleftrightarrow>
     (\<exists>a m z t. w = (a # m @ z) @ 46 # t \<and> is_alnum a \<and> list_all (\<lambda>c. is_alnum c \<or> c = 45) m \<and>
        length m \<le> 61 \<and> (z = [] \<or> (\<exists>c. z = [c] \<and> is_alnum c)) \<and> list_all is_alpha t \<and>
        2 \<le> length t)"
proof
  assume "w \<in> lang domain_body"
  then obtain v1 r1 where 1: "w = v1 @ r1" "v1 \<in> lang (Cls [lower, upper, digit])"
    and r1: "r1 \<in> lang (Seq (Rep (Cls [lower, upper, digit, one CHR ''-'']) 0 (Some 61))
                 (Seq (Opt (Cls [lower, upper, digit]))
                 (Seq (Chr (ch CHR ''.'')) (Rep (Cls [lower, upper]) 2 None))))"
    unfolding domain_body_def by (rule lang_SeqE)
  from r1 obtain m r2 where 2: "r1 = m @ r2" "m \<in> lang (Rep (Cls [lower, upper, digit, one CHR ''-'']) 0 (Some 61))"
    and r2: "r2 \<in> lang (Seq (Opt (Cls [lower, upper, digit]))
                 (Seq (Chr (ch CHR ''.'')) (Rep (Cls [lower, upper]) 2 None)))"
    by (rule lang_SeqE)
  from r2 obtain z r3 where 3: "r2 = z @ r3" "z \<in> lang (Opt (Cls [lower, upper, digit]))"
    and r3: "r3 \<in> lang (Seq (Chr (ch CHR ''.'')) (Rep (Cls [lower, upper]) 2 None))"
    by (rule lang_SeqE)
  from r3 obtain d t where 4: "r3 = d @ t" "d \<in> lang (Chr (ch CHR ''.''))"
    "t \<in> lang (Rep (Cls [lower, upper]) 2 None)"
    by (rule lang_SeqE)
  from 1(2) obtain a where a: "v1 = [a]" "is_alnum a" by (auto simp: cls_alnum)
  from 2(2) have m: "list_all (\<lambda>c. is_alnum c \<or> c = 45) m" "length m \<le> 61"
    by (simp_all add: lang_rep_cls cls_alnum_hyphen)
  from 3(2) have z: "z = [] \<or> (\<exists>c. z = [c] \<and> is_alnum c)"
    by (auto simp: lang_Opt cls_alnum)
  from 4(2) have d: "d = [46]" by (simp add: ch_def)
  from 4(3) have t: "list_all is_alpha t" "2 \<le> length t"
    by (simp_all add: lang_rep_cls cls_alpha)
  have "w = (a # m @ z) @ 46 # t" using 1(1) 2(1) 3(1) 4(1) a(1) d by simp
  with a(2) m z t show "\<exists>a m z t. w = (a # m @ z) @ 46 # t \<and> is_alnum a \<and>
        list_all (\<lambda>c. is_alnum c \<or> c = 45) m \<and> length m \<le> 61 \<and>
        (z = [] \<or> (\<exists>c. z = [c] \<and> is_alnum c)) \<and> list_all is_alpha t \<and> 2 \<le> length t"
    by blast
next
  assume "\<exists>a m z t. w = (a # m @ z) @ 46 # t \<and> is_alnum a \<and>
        list_all (\<lambda>c. is_alnum c \<or> c = 45) m \<and> length m \<le> 61 \<and>
        (z = [] \<or> (\<exists>c. z = [c] \<and> is_alnum c)) \<and> list_all is_alpha t \<and> 2 \<le> length t"
  then obtain a m z t where w: "w = (a # m @ z) @ 46 # t" and a: "is_alnum a"
    and m: "list_all (\<lambda>c. is_alnum c \<or> c = 45) m" "length m \<le> 61"
    and z: "z = [] \<or> (\<exists>c. z = [c] \<and> is_alnum c)"
    and t: "list_all is_alpha t" "2 \<le> length t"
    by blast
  have 1: "[a] \<in> lang (Cls [lower, upper, digit])" using a by (simp add: cls_alnum)
  have 2: "m \<in> lang (Rep (Cls [lower, upper, digit, one CHR ''-'']) 0 (Some 61))"
    using m by (simp add: lang_rep_cls cls_alnum_hyphen)
  have 3: "z \<in> lang (Opt (Cls [lower, upper, digit]))"
    using z by (auto simp: lang_Opt cls_alnum)
  have 4: "[46] \<in> lang (Chr (ch CHR ''.''))" by (simp add: ch_def)
  have 5: "t \<in> lang (Rep (Cls [lower, upper]) 2 None)"
    using t by (simp add: lang_rep_cls cls_alpha)
  have "[a] @ m @ z @ [46] @ t \<in> lang domain_body"
    unfolding domain_body_def by (intro lang_SeqI 1 2 3 4 5)
  then show "w \<in> lang domain_body" using w by simp
qed

lemma alnum_hyphen_not_dot: "is_alnum c \<or> c = 45 \<Longrightarrow> c \<noteq> 46"
  by (auto simp: is_alnum_def is_alpha_def)

lemma alnum_not_hyphen: "is_alnum c \<Longrightarrow> c \<noteq> 45"
  by (auto simp: is_alnum_def is_alpha_def)

lemma alpha_not_newline: "is_alpha c \<Longrightarrow> c \<noteq> 10"
  by (auto simp: is_alpha_def)

lemma not_alpha_dot: "\<not> is_alpha 46"
  by (simp add: is_alpha_def)

lemma lang_domain_body_shape:
  assumes "w \<in> lang domain_body"
  shows "domain_shape_loose w" and "has_alpha_suffix w" and "w \<noteq> []" and "last w \<noteq> 10"
proof -
  from assms obtain a m z t where w: "w = (a # m @ z) @ 46 # t" and a: "is_alnum a"
    and m: "list_all (\<lambda>c. is_alnum c \<or> c = 45) m" "length m \<le> 61"
    and z: "z = [] \<or> (\<exists>c. z = [c] \<and> is_alnum c)"
    and t: "list_all is_alpha t" "2 \<le> length t"
    unfolding lang_domain_body by blast
  let ?l = "a # m @ z"
  have l: "list_all (\<lambda>c. is_alnum c \<or> c = 45) ?l" using a m z by auto
  then have nodot: "\<And>x. x \<in> set ?l \<Longrightarrow> x \<noteq> 46"
    unfolding list_all_iff using alnum_hyphen_not_dot by blast
  have tw: "takeWhile (\<lambda>c. c \<noteq> 46) w = ?l" unfolding w
    using nodot by (subst takeWhile_append2) auto
  have dw: "dropWhile (\<lambda>c. c \<noteq> 46) w = 46 # t" unfolding w
    using nodot by (subst dropWhile_append2) auto
  have len: "1 \<le> length ?l" "length ?l \<le> 63" using m(2) z by auto
  have "hd ?l \<noteq> 45" using a alnum_not_hyphen by simp
  with l len t show "domain_shape_loose w"
    unfolding domain_shape_loose_def tw dw by (simp add: label_chars_def tld_ok_def)
  have alpha: "\<And>x. x \<in> set (rev t) \<Longrightarrow> is_alpha x" using t(1) by (simp add: list_all_iff)
  have rw: "rev w = rev t @ 46 # rev ?l" unfolding w by simp
  have "takeWhile is_alpha (rev w) = rev t" unfolding rw
    using alpha not_alpha_dot by (subst takeWhile_append2) auto
  moreover have "dropWhile is_alpha (rev w) = 46 # rev ?l" unfolding rw
    using alpha not_alpha_dot by (subst dropWhile_append2) auto
  ultimately show "has_alpha_suffix w" using t(2) by (simp add: has_alpha_suffix_def)
  show "w \<noteq> []" unfolding w by simp
  from t(2) have "t \<noteq> []" by auto
  then have "last w = last t" unfolding w by simp
  moreover have "is_alpha (last t)" using t(1) \<open>t \<noteq> []\<close> by (simp add: list_all_iff)
  ultimately show "last w \<noteq> 10" using alpha_not_newline by auto
qed

lemma chomp_simps: "chomp (w @ [10]) = w" "w \<noteq> [] \<Longrightarrow> last w \<noteq> 10 \<Longrightarrow> chomp w = w"
  by (simp_all add: chomp_def)

lemma validate_domain_chomp: "validate_domain s \<longleftrightarrow> chomp s \<in> lang domain_body"
proof
  assume "validate_domain s"
  then consider "s \<in> lang domain_body" | w where "s = w @ [10]" "w \<in> lang domain_body"
    unfolding validate_domain_iff by blast
  then show "chomp s \<in> lang domain_body"
  proof cases
    case 1
    with lang_domain_body_shape(3,4) [OF 1] show ?thesis by (simp add: chomp_simps)
  next
    case 2
    then show ?thesis by (simp add: chomp_simps)
  qed
next
  assume c: "chomp s \<in> lang domain_body"
  show "validate_domain s"
  proof (cases "s \<noteq> [] \<and> last s = 10")
    case True
    then have "s = chomp s @ [10]" by (simp add: chomp_def) (metis append_butlast_last_id)
    with c show ?thesis unfolding validate_domain_iff by blast
  next
    case False
    then have "chomp s = s" by (auto simp: chomp_def)
    with c show ?thesis unfolding validate_domain_iff by simp
  qed
qed

lemma has_alpha_suffix_iff:
  "has_alpha_suffix s \<longleftrightarrow> (\<exists>p t. s = p @ 46 # t \<and> 2 \<le> length t \<and> list_all is_alpha t)"
proof
  assume h: "has_alpha_suffix s"
  then obtain q where q: "dropWhile is_alpha (rev s) = 46 # q"
    and len: "2 \<le> length (takeWhile is_alpha (rev s))"
    by (auto simp: has_alpha_suffix_def split: list.splits)
  let ?t = "takeWhile is_alpha (rev s)"
  have "rev s = ?t @ 46 # q" using q by (metis takeWhile_dropWhile_id)
  then have "s = rev q @ 46 # rev ?t" by (metis rev_append rev_rev_ident rev.simps(2) append.assoc append_Cons append_Nil)
  moreover have "list_all is_alpha (rev ?t)" by (simp add: list_all_iff) (meson set_takeWhileD)
  moreover have "2 \<le> length (rev ?t)" using len by simp
  ultimately show "\<exists>p t. s = p @ 46 # t \<and> 2 \<le> length t \<and> list_all is_alpha t" by blast
next
  assume "\<exists>p t. s = p @ 46 # t \<and> 2 \<le> length t \<and> list_all is_alpha t"
  then obtain p t where s: "s = p @ 46 # t" and t: "2 \<le> length t" "list_all is_alpha t" by blast
  have alpha: "\<And>x. x \<in> set (rev t) \<Longrightarrow> is_alpha x" using t(2) by (simp add: list_all_iff)
  have rw: "rev s = rev t @ 46 # rev p" unfolding s by simp
  have "takeWhile is_alpha (rev s) = rev t" unfolding rw
    using alpha not_alpha_dot by (subst takeWhile_append2) auto
  moreover have "dropWhile is_alpha (rev s) = 46 # rev p" unfolding rw
    using alpha not_alpha_dot by (subst dropWhile_append2) auto
  ultimately show "has_alpha_suffix s" using t(1) by (simp add: has_alpha_suffix_def)
qed

lemma lang_Seq_last:
  assumes "x \<in> lang (Seq a b)" and "\<And>v. v \<in> lang b \<Longrightarrow> v \<noteq> [] \<and> last v \<noteq> 10"
  shows "x \<noteq> [] \<and> last x \<noteq> 10"
proof -
  from assms(1) obtain v w where "x = v @ w" "w \<in> lang b" by (rule lang_SeqE)
  with assms(2) [of w] show ?thesis by simp
qed

lemma alpha_tail_last:
  assumes "v \<in> lang (Rep (Cls [lower, upper]) 2 None)"
  shows "v \<noteq> [] \<and> last v \<noteq> 10"
proof -
  from assms have v: "list_all is_alpha v" "2 \<le> length v"
    by (simp_all add: lang_rep_cls cls_alpha)
  then have "v \<noteq> []" by auto
  moreover from this v(1) have "is_alpha (last v)" by (simp add: list_all_iff)
  ultimately show ?thesis using alpha_not_newline by auto
qed

lemma lang_email_body_last:
  assumes "w \<in> lang email_body"
  shows "w \<noteq> [] \<and> last w \<noteq> 10"
  using assms unfolding email_body_def
  apply -
  apply (erule lang_Seq_last)
  apply (erule lang_Seq_last)
  apply (erule lang_Seq_last)
  apply (erule lang_Seq_last)
  apply (erule alpha_tail_last)
  done

lemma slug_tail_last:
  assumes "v \<in> lang (Seq (Plus (Cls [lower, upper, digit, one CHR ''-'']))
                         (Opt (Chr (ch CHR ''/''))))"
  shows "v \<noteq> [] \<and> last v \<noteq> 10"
proof -
  from assms obtain x y where v: "v = x @ y"
    and x: "x \<in> lang (Plus (Cls [lower, upper, digit, one CHR ''-'']))"
    and y: "y \<in> lang (Opt (Chr (ch CHR ''/'')))"
    by (rule lang_SeqE)
  from x have xs: "list_all (\<lambda>c. is_alnum c \<or> c = 45) x" "1 \<le> length x"
    by (simp_all add: Plus_def lang_rep_cls cls_alnum_hyphen)
  then have "x \<noteq> []" by auto
  with xs(1) have "is_alnum (last x) \<or> last x = 45" by (simp add: list_all_iff)
  then have lx: "last x \<noteq> 10" by (auto simp: is_alnum_def is_alpha_def)
  from y have "y = [] \<or> y = [47]" by (simp add: lang_Opt ch_def)
  with v \<open>x \<noteq> []\<close> lx show ?thesis by auto
qed

lemma lang_linkedin_body_last:
  assumes "w \<in> lang linkedin_body"
  shows "w \<noteq> [] \<and> last w \<noteq> 10"
  using assms unfolding linkedin_body_def
  apply -
  apply (erule lang_Seq_last)
  apply (erule lang_Seq_last)
  apply (erule lang_Seq_last)
  apply (erule lang_Seq_last)
  apply (erule lang_Seq_last)
  apply (erule lang_Seq_last)
  apply (erule lang_Seq_last)
  apply (erule slug_tail_last)
  done

lemma lang_linkedin_body_head:
  assumes "w \<in> lang linkedin_body"
  shows "\<exists>t. w = 104 # t"
proof -
  from assms obtain v r where "w = v @ r" "v \<in> lang (Str (u ''http''))"
    unfolding linkedin_body_def by (rule lang_SeqE)
  moreover have "lang (Str (u ''http'')) = {u ''http''}" by (rule lang_Str) (simp add: u_def)
  ultimately show ?thesis by (simp add: u_def)
qed

lemma strip_nonempty:
  assumes "s = c # t" and "\<not> isspace c"
  shows "strip s \<noteq> []"
proof -
  have "dropWhile isspace s = s" using assms by simp
  moreover have "dropWhile isspace (rev s) \<noteq> []"
    using assms by (auto simp: dropWhile_eq_Nil_conv)
  ultimately show ?thesis by (simp add: strip_def)
qed

lemma strip_Nil: "strip [] = []"
  by (simp add: strip_def)

lemma validate_linkedin_url_strip:
  assumes "validate_linkedin_url s" and "s \<noteq> []"
  shows "strip s \<noteq> []"
proof -
  from assms obtain w where "s = w \<or> s = w @ [10]" "w \<in> lang linkedin_body"
    unfolding validate_linkedin_url_iff by blast
  with lang_linkedin_body_head [of w] obtain t where "s = 104 # t" by auto
  then show ?thesis by (rule strip_nonempty) (simp add: isspace_def)
qed

section \<open>The validators against the specification\<close>

lemma lang_patterns:
  "lang domain_pattern = lang domain_body"
  "lang email_pattern = lang email_body"
  "lang linkedin_pattern = lang linkedin_body"
  by (simp_all add: domain_pattern_def email_pattern_def linkedin_pattern_def)

lemmas run_validate = validate_domain_def validate_email_def validate_linkedin_url_def run_match

lemmas run_shape = domain_shape_def domain_shape_loose_def label_chars_def tld_ok_def
  is_alnum_def is_alpha_def has_alpha_suffix_def chomp_def u_def

lemma chomp_cases: "chomp s = s \<or> s = chomp s @ [10]"
  unfolding chomp_def by (metis append_butlast_last_id)

text \<open>
  Claim C6 says that every string accepted by \<open>validate_domain\<close> is a label of 1 to 63
  alphanumeric or hyphen characters that neither starts nor ends with a hyphen, then a dot,
  then an alphabetic top-level domain of length at least 2.  The code accepts more: what
  holds for every accepted string is that, once a single newline at its end is removed, it
  is a label of 1 to 63 alphanumeric or hyphen characters that does not start with a
  hyphen, then a dot, then an alphabetic top-level domain of length at least 2.
\<close>

theorem validate_domain_shape: "validate_domain s \<Longrightarrow> domain_shape_loose (chomp s)"
  using lang_domain_body_shape(1) [of "chomp s"] by (simp add: validate_domain_chomp)

text \<open>The theorem at the accepted input \<^verbatim>\<open>"my-shop.com\n"\<close>.\<close>

theorem validate_domain_shape_witness:
  "validate_domain (u ''my-shop.com'' @ [10]) \<and> domain_shape_loose (chomp (u ''my-shop.com'' @ [10]))"
proof -
  have h: "validate_domain (u ''my-shop.com'' @ [10])" by (simp add: run_validate)
  from validate_domain_shape [OF h] h show ?thesis by simp
qed

text \<open>
  The claim as stated fails at \<^verbatim>\<open>"a-.com"\<close>, whose label ends with a hyphen, and at
  \<^verbatim>\<open>"example.com\n"\<close>, which ends with a newline: both are accepted and neither has the
  stated shape.
\<close>

theorem validate_domain_shape_counterexample:
  "validate_domain (u ''a-.com'') \<and> \<not> domain_shape (u ''a-.com'') \<and>
   validate_domain (u ''example.com'' @ [10]) \<and> \<not> domain_shape (u ''example.com'' @ [10])"
  apply (intro conjI)
     apply (simp add: run_validate)
    apply (simp add: run_shape)
   apply (simp add: run_validate)
  apply (simp add: run_shape)
  done

text \<open>
  Claim C7 says that \<open>validate_domain\<close> accepts every string of the language of the
  pattern and rejects the empty string and every string without a dot-separated alphabetic
  suffix of length at least 2.  The first two parts hold.  The third holds once a single
  trailing newline is set aside: a string is rejected when what is left of it after the
  removal of one newline at its end has no such suffix.
\<close>

theorem validate_domain_complete:
  "(s \<in> lang domain_pattern \<longrightarrow> validate_domain s) \<and> \<not> validate_domain [] \<and>
   (\<not> has_alpha_suffix (chomp s) \<longrightarrow> \<not> validate_domain s)"
proof (intro conjI impI)
  assume "s \<in> lang domain_pattern"
  then show "validate_domain s" by (simp add: lang_patterns validate_domain_iff)
next
  show "\<not> validate_domain []" by (simp add: validate_domain_def)
next
  assume "\<not> has_alpha_suffix (chomp s)"
  with lang_domain_body_shape(2) [of "chomp s"] show "\<not> validate_domain s"
    by (auto simp: validate_domain_chomp)
qed

text \<open>The theorem at \<^verbatim>\<open>"example.com"\<close>, accepted, and at \<^verbatim>\<open>"example.c0m"\<close>, rejected.\<close>

theorem validate_domain_complete_witness:
  "u ''example.com'' \<in> lang domain_pattern \<and> validate_domain (u ''example.com'') \<and>
   \<not> has_alpha_suffix (chomp (u ''example.c0m'')) \<and> \<not> validate_domain (u ''example.c0m'')"
proof -
  have 1: "u ''example.com'' \<in> lang domain_pattern"
    unfolding lang_patterns lang_code [OF plain_bodies(1)] by (simp add: run_match)
  have 2: "\<not> has_alpha_suffix (chomp (u ''example.c0m''))" by (simp add: run_shape)
  from 1 2 validate_domain_complete [of "u ''example.com''"]
    validate_domain_complete [of "u ''example.c0m''"]
  show ?thesis by blast
qed

text \<open>
  The claim as stated fails at \<^verbatim>\<open>"example.com\n"\<close>: the string has no dot-separated
  alphabetic suffix, since it ends with a newline, and it is accepted.
\<close>

theorem validate_domain_complete_counterexample:
  "\<not> has_alpha_suffix (u ''example.com'' @ [10]) \<and> validate_domain (u ''example.com'' @ [10])"
  apply (intro conjI)
   apply (simp add: run_shape)
  apply (simp add: run_validate)
  done

text \<open>
  Claim C8 says that \<open>validate_linkedin_url\<close> accepts the empty string and, of the
  non-empty strings, exactly those of the language of the pattern, with three examples.
  The empty string and the examples are as stated.  A non-empty string is accepted exactly
  when it, or what is left of it after the removal of one newline at its end, is in the
  language of the pattern.
\<close>

theorem validate_linkedin_url_matches:
  "validate_linkedin_url [] \<and>
   (s \<noteq> [] \<longrightarrow>
      (validate_linkedin_url s \<longleftrightarrow> s \<in> lang linkedin_pattern \<or> chomp s \<in> lang linkedin_pattern)) \<and>
   validate_linkedin_url (u ''https://linkedin.com/in/janedoe'') \<and>
   \<not> validate_linkedin_url (u ''https://linkedin.com/in/jane doe'') \<and>
   \<not> validate_linkedin_url (u ''ftp://linkedin.com/in/jane'')"
proof (intro conjI impI)
  show "validate_linkedin_url []" by (simp add: validate_linkedin_url_def)
next
  assume ne: "s \<noteq> []"
  show "validate_linkedin_url s \<longleftrightarrow> s \<in> lang linkedin_pattern \<or> chomp s \<in> lang linkedin_pattern"
  proof
    assume "validate_linkedin_url s"
    with ne consider "s \<in> lang linkedin_body" | w where "s = w @ [10]" "w \<in> lang linkedin_body"
      unfolding validate_linkedin_url_iff by blast
    then show "s \<in> lang linkedin_pattern \<or> chomp s \<in> lang linkedin_pattern"
      by cases (simp_all add: lang_patterns chomp_simps)
  next
    assume "s \<in> lang linkedin_pattern \<or> chomp s \<in> lang linkedin_pattern"
    with chomp_cases [of s] show "validate_linkedin_url s"
      unfolding validate_linkedin_url_iff lang_patterns by metis
  qed
next
  show "validate_linkedin_url (u ''https://linkedin.com/in/janedoe'')"
    by (simp add: run_validate)
next
  show "\<not> validate_linkedin_url (u ''https://linkedin.com/in/jane doe'')"
    by (simp add: run_validate)
next
  show "\<not> validate_linkedin_url (u ''ftp://linkedin.com/in/jane'')"
    by (simp add: run_validate)
qed

text \<open>The theorem at \<^verbatim>\<open>"https://linkedin.com/company/acme/\n"\<close>.\<close>

theorem validate_linkedin_url_matches_witness:
  "u ''https://linkedin.com/company/acme/'' @ [10] \<noteq> [] \<and>
   validate_linkedin_url (u ''https://linkedin.com/company/acme/'' @ [10]) \<and>
   chomp (u ''https://linkedin.com/company/acme/'' @ [10]) \<in> lang linkedin_pattern"
proof -
  have 1: "u ''https://linkedin.com/company/acme/'' @ [10] \<noteq> []" by simp
  have 2: "validate_linkedin_url (u ''https://linkedin.com/company/acme/'' @ [10])"
    by (simp add: run_validate)
  have 3: "chomp (u ''https://linkedin.com/company/acme/'' @ [10]) \<in> lang linkedin_pattern"
    unfolding chomp_simps lang_patterns lang_code [OF plain_bodies(3)] by (simp add: run_match)
  from 1 2 3 validate_linkedin_url_matches [of "u ''https://linkedin.com/company/acme/'' @ [10]"]
  show ?thesis by blast
qed

text \<open>
  The claim as stated fails at \<^verbatim>\<open>"https://linkedin.com/in/janedoe\n"\<close>: the string is not
  empty, it is accepted, and it is not in the language of the pattern.
\<close>

theorem validate_linkedin_url_matches_counterexample:
  "u ''https://linkedin.com/in/janedoe'' @ [10] \<noteq> [] \<and>
   validate_linkedin_url (u ''https://linkedin.com/in/janedoe'' @ [10]) \<and>
   u ''https://linkedin.com/in/janedoe'' @ [10] \<notin> lang linkedin_pattern"
proof (intro conjI)
  show "u ''https://linkedin.com/in/janedoe'' @ [10] \<noteq> []" by simp
  show "validate_linkedin_url (u ''https://linkedin.com/in/janedoe'' @ [10])"
    by (simp add: run_validate)
  show "u ''https://linkedin.com/in/janedoe'' @ [10] \<notin> lang linkedin_pattern"
    unfolding lang_patterns lang_code [OF plain_bodies(3)] by (simp add: run_match)
qed

text \<open>
  Claim C10: a value of the language of the documented pattern followed by one newline,
  such as \<^verbatim>\<open>"example.com\n"\<close>, is not in that language and is accepted all the same, by
  \<open>validate_domain\<close>, by \<open>validate_email\<close> and by \<open>validate_linkedin_url\<close>.
\<close>

theorem trailing_newline_accepted:
  "(w \<in> lang domain_pattern \<longrightarrow> validate_domain (w @ [10]) \<and> w @ [10] \<notin> lang domain_pattern) \<and>
   (w \<in> lang email_pattern \<longrightarrow> validate_email (w @ [10]) \<and> w @ [10] \<notin> lang email_pattern) \<and>
   (w \<in> lang linkedin_pattern \<longrightarrow>
      validate_linkedin_url (w @ [10]) \<and> w @ [10] \<notin> lang linkedin_pattern)"
proof (intro conjI impI)
  assume "w \<in> lang domain_pattern"
  then show "validate_domain (w @ [10])" by (simp add: lang_patterns validate_domain_iff)
next
  show "w @ [10] \<notin> lang domain_pattern"
    using lang_domain_body_shape(4) [of "w @ [10]"] by (auto simp: lang_patterns)
next
  assume "w \<in> lang email_pattern"
  then show "validate_email (w @ [10])" by (simp add: lang_patterns validate_email_iff)
next
  show "w @ [10] \<notin> lang email_pattern"
    using lang_email_body_last [of "w @ [10]"] by (auto simp: lang_patterns)
next
  assume "w \<in> lang linkedin_pattern"
  then show "validate_linkedin_url (w @ [10])"
    by (simp add: lang_patterns validate_linkedin_url_iff)
next
  show "w @ [10] \<notin> lang linkedin_pattern"
    using lang_linkedin_body_last [of "w @ [10]"] by (auto simp: lang_patterns)
qed

text \<open>
  The theorem at \<^verbatim>\<open>"example.com"\<close>, \<^verbatim>\<open>"a@b.co"\<close> and
  \<^verbatim>\<open>"https://linkedin.com/in/janedoe"\<close>.
\<close>

theorem trailing_newline_accepted_witness:
  "u ''example.com'' \<in> lang domain_pattern \<and>
   validate_domain (u ''example.com'' @ [10]) \<and> u ''example.com'' @ [10] \<notin> lang domain_pattern \<and>
   u ''a@b.co'' \<in> lang email_pattern \<and>
   validate_email (u ''a@b.co'' @ [10]) \<and> u ''a@b.co'' @ [10] \<notin> lang email_pattern \<and>
   u ''https://linkedin.com/in/janedoe'' \<in> lang linkedin_pattern \<and>
   validate_linkedin_url (u ''https://linkedin.com/in/janedoe'' @ [10]) \<and>
   u ''https://linkedin.com/in/janedoe'' @ [10] \<notin> lang linkedin_pattern"
proof -
  have 1: "u ''example.com'' \<in> lang domain_pattern"
    unfolding lang_patterns lang_code [OF plain_bodies(1)] by (simp add: run_match)
  have 2: "u ''a@b.co'' \<in> lang email_pattern"
    unfolding lang_patterns lang_code [OF plain_bodies(2)] by (simp add: run_match)
  have 3: "u ''https://linkedin.com/in/janedoe'' \<in> lang linkedin_pattern"
    unfolding lang_patterns lang_code [OF plain_bodies(3)] by (simp add: run_match)
  from 1 2 3 trailing_newline_accepted [of "u ''example.com''"]
    trailing_newline_accepted [of "u ''a@b.co''"]
    trailing_newline_accepted [of "u ''https://linkedin.com/in/janedoe''"]
  show ?thesis by blast
qed

section \<open>The client and the entry points against the specification\<close>

lemma bind_e_simps [simp]: "bind_e (Inr x) f = f x" "bind_e (Inl e) f = Inl e"
  by (simp_all add: bind_e_def)

lemma u_eq [simp]: "(u a = u b) = (a = b)"
  unfolding u_def by (rule inj_map_eq_map) (rule injI, simp)

lemma u_Nil [simp]: "u [] = []" "(u a = []) = (a = [])" "([] = u a) = (a = [])"
  by (auto simp: u_def)


text \<open>
  Claim C3 says that, whatever the HTTP call does, \<open>enrich_company\<close> and \<open>enrich_contact\<close>
  return a result and let no exception escape, with the message of the status code and
  the raw body for a status other than 200, the text of the exception for a transport
  failure, and the unexpected-error message for every other failure.  The last part does
  not hold of every other failure: the \<^verbatim>\<open>RequestException\<close> handler stands first and takes
  every exception of that class, also the one that \<^verbatim>\<open>response.json()\<close> raises on a body of
  status 200 that is no JSON.  What holds, for every outcome: a result is returned and no
  exception escapes; a status other than 200 gives the error result whose message holds
  the status code and the raw body; a \<^verbatim>\<open>RequestException\<close>, raised by the call or by the
  decoding of the body, gives the error result \<^verbatim>\<open>Request failed:\<close> with the text of the
  exception; every other exception of the call or of the decoding, and the AttributeError
  of a decoded body that is not a dict, give the error result \<^verbatim>\<open>Unexpected error:\<close> with
  the text of the exception; a dict body of status 200 gives the success result.
\<close>

theorem client_never_raises:
  "(\<exists>r. fst (enrich_company post self d l n c) = Inr r \<and>
      (\<forall>resp. post (company_request self d l n c) = Inr resp \<and> status_code resp \<noteq> 200 \<longrightarrow>
         r = error_result (u ''API Error: '' @ str_int (status_code resp) @ u '' - '' @ resp_text resp)) \<and>
      (\<forall>e. post (company_request self d l n c) = Inl (RequestException e) \<longrightarrow>
         r = error_result (u ''Request failed: '' @ e)) \<and>
      (\<forall>e. post (company_request self d l n c) = Inl (OtherException e) \<longrightarrow>
         r = error_result (u ''Unexpected error: '' @ e)) \<and>
      (\<forall>resp e. post (company_request self d l n c) = Inr resp \<and> status_code resp = 200 \<and>
         resp_json resp = Inl (RequestException e) \<longrightarrow>
         r = error_result (u ''Request failed: '' @ e)) \<and>
      (\<forall>resp e. post (company_request self d l n c) = Inr resp \<and> status_code resp = 200 \<and>
         resp_json resp = Inl (OtherException e) \<longrightarrow>
         r = error_result (u ''Unexpected error: '' @ e)) \<and>
      (\<forall>resp v. post (company_request self d l n c) = Inr resp \<and> status_code resp = 200 \<and>
         resp_json resp = Inr v \<and> (\<forall>kvs. v \<noteq> JObj kvs) \<longrightarrow>
         r = error_result (u ''Unexpected error: '' @ [39] @ type_name v @ [39]
               @ u '' object has no attribute '' @ [39] @ u ''get'' @ [39])) \<and>
      (\<forall>resp kvs. post (company_request self d l n c) = Inr resp \<and> status_code resp = 200 \<and>
         resp_json resp = Inr (JObj kvs) \<longrightarrow>
         r = \<lparr> status = u ''success'',
                 data = (case map_of kvs (u ''organization'') of None \<Rightarrow> JObj [] | Some x \<Rightarrow> x),
                 message = u ''Company data enriched successfully'' \<rparr>)) \<and>
   (\<exists>r. fst (enrich_contact post self m l f g) = Inr r \<and>
      (\<forall>resp. post (contact_request self m l f g) = Inr resp \<and> status_code resp \<noteq> 200 \<longrightarrow>
         r = error_result (u ''API Error: '' @ str_int (status_code resp) @ u '' - '' @ resp_text resp)) \<and>
      (\<forall>e. post (contact_request self m l f g) = Inl (RequestException e) \<longrightarrow>
         r = error_result (u ''Request failed: '' @ e)) \<and>
      (\<forall>e. post (contact_request self m l f g) = Inl (OtherException e) \<longrightarrow>
         r = error_result (u ''Unexpected error: '' @ e)) \<and>
      (\<forall>resp e. post (contact_request self m l f g) = Inr resp \<and> status_code resp = 200 \<and>
         resp_json resp = Inl (RequestException e) \<longrightarrow>
         r = error_result (u ''Request failed: '' @ e)) \<and>
      (\<forall>resp e. post (contact_request self m l f g) = Inr resp \<and> status_code resp = 200 \<and>
         resp_json resp = Inl (OtherException e) \<longrightarrow>
         r = error_result (u ''Unexpected error: '' @ e)) \<and>
      (\<forall>resp v. post (contact_request self m l f g) = Inr resp \<and> status_code resp = 200 \<and>
         resp_json resp = Inr v \<and> (\<forall>kvs. v \<noteq> JObj kvs) \<longrightarrow>
         r = error_result (u ''Unexpected error: '' @ [39] @ type_name v @ [39]
               @ u '' object has no attribute '' @ [39] @ u ''get'' @ [39])) \<and>
      (\<forall>resp kvs. post (contact_request self m l f g) = Inr resp \<and> status_code resp = 200 \<and>
         resp_json resp = Inr (JObj kvs) \<longrightarrow>
         r = \<lparr> status = u ''success'',
                 data = (case map_of kvs (u ''person'') of None \<Rightarrow> JObj [] | Some x \<Rightarrow> x),
                 message = u ''Contact data enriched successfully'' \<rparr>))"
proof (rule conjI)
  let ?out = "post (company_request self d l n c)"
  show "\<exists>r. fst (enrich_company post self d l n c) = Inr r \<and>
      (\<forall>resp. ?out = Inr resp \<and> status_code resp \<noteq> 200 \<longrightarrow>
         r = error_result (u ''API Error: '' @ str_int (status_code resp) @ u '' - '' @ resp_text resp)) \<and>
      (\<forall>e. ?out = Inl (RequestException e) \<longrightarrow>
         r = error_result (u ''Request failed: '' @ e)) \<and>
      (\<forall>e. ?out = Inl (OtherException e) \<longrightarrow>
         r = error_result (u ''Unexpected error: '' @ e)) \<and>
      (\<forall>resp e. ?out = Inr resp \<and> status_code resp = 200 \<and>
         resp_json resp = Inl (RequestException e) \<longrightarrow>
         r = error_result (u ''Request failed: '' @ e)) \<and>
      (\<forall>resp e. ?out = Inr resp \<and> status_code resp = 200 \<and>
         resp_json resp = Inl (OtherException e) \<longrightarrow>
         r = error_result (u ''Unexpected error: '' @ e)) \<and>
      (\<forall>resp v. ?out = Inr resp \<and> status_code resp = 200 \<and>
         resp_json resp = Inr v \<and> (\<forall>kvs. v \<noteq> JObj kvs) \<longrightarrow>
         r = error_result (u ''Unexpected error: '' @ [39] @ type_name v @ [39]
               @ u '' object has no attribute '' @ [39] @ u ''get'' @ [39])) \<and>
      (\<forall>resp kvs. ?out = Inr resp \<and> status_code resp = 200 \<and>
         resp_json resp = Inr (JObj kvs) \<longrightarrow>
         r = \<lparr> status = u ''success'',
                 data = (case map_of kvs (u ''organization'') of None \<Rightarrow> JObj [] | Some x \<Rightarrow> x),
                 message = u ''Company data enriched successfully'' \<rparr>)"
  proof (cases ?out)
    case (Inl e)
    then show ?thesis by (cases e) (simp_all add: enrich_company_def Let_def)
  next
    case (Inr resp)
    show ?thesis
    proof (cases "status_code resp = 200")
      case False
      with Inr show ?thesis by (simp add: enrich_company_def Let_def)
    next
      case True
      show ?thesis
      proof (cases "resp_json resp")
        case (Inl e)
        with Inr True show ?thesis by (cases e) (simp_all add: enrich_company_def Let_def)
      next
        case js: (Inr v)
        with Inr True show ?thesis
          by (cases v) (simp_all add: enrich_company_def Let_def)
      qed
    qed
  qed
next
  let ?out = "post (contact_request self m l f g)"
  show "\<exists>r. fst (enrich_contact post self m l f g) = Inr r \<and>
      (\<forall>resp. ?out = Inr resp \<and> status_code resp \<noteq> 200 \<longrightarrow>
         r = error_result (u ''API Error: '' @ str_int (status_code resp) @ u '' - '' @ resp_text resp)) \<and>
      (\<forall>e. ?out = Inl (RequestException e) \<longrightarrow>
         r = error_result (u ''Request failed: '' @ e)) \<and>
      (\<forall>e. ?out = Inl (OtherException e) \<longrightarrow>
         r = error_result (u ''Unexpected error: '' @ e)) \<and>
      (\<forall>resp e. ?out = Inr resp \<and> status_code resp = 200 \<and>
         resp_json resp = Inl (RequestException e) \<longrightarrow>
         r = error_result (u ''Request failed: '' @ e)) \<and>
      (\<forall>resp e. ?out = Inr resp \<and> status_code resp = 200 \<and>
         resp_json resp = Inl (OtherException e) \<longrightarrow>
         r = error_result (u ''Unexpected error: '' @ e)) \<and>
      (\<forall>resp v. ?out = Inr resp \<and> status_code resp = 200 \<and>
         resp_json resp = Inr v \<and> (\<forall>kvs. v \<noteq> JObj kvs) \<longrightarrow>
         r = error_result (u ''Unexpected error: '' @ [39] @ type_name v @ [39]
               @ u '' object has no attribute '' @ [39] @ u ''get'' @ [39])) \<and>
      (\<forall>resp kvs. ?out = Inr resp \<and> status_code resp = 200 \<and>
         resp_json resp = Inr (JObj kvs) \<longrightarrow>
         r = \<lparr> status = u ''success'',
                 data = (case map_of kvs (u ''person'') of None \<Rightarrow> JObj [] | Some x \<Rightarrow> x),
                 message = u ''Contact data enriched successfully'' \<rparr>)"
  proof (cases ?out)
    case (Inl e)
    then show ?thesis by (cases e) (simp_all add: enrich_contact_def Let_def)
  next
    case (Inr resp)
    show ?thesis
    proof (cases "status_code resp = 200")
      case False
      with Inr show ?thesis by (simp add: enrich_contact_def Let_def)
    next
      case True
      show ?thesis
      proof (cases "resp_json resp")
        case (Inl e)
        with Inr True show ?thesis by (cases e) (simp_all add: enrich_contact_def Let_def)
      next
        case js: (Inr v)
        with Inr True show ?thesis
          by (cases v) (simp_all add: enrich_contact_def Let_def)
      qed
    qed
  qed
qed

lemmas run_str_int = str_int_def str_nat.simps

lemma str_int_404: "str_int 404 = u ''404''"
  by (simp add: run_str_int u_def)

text \<open>
  The theorem at a response of status 404 with the body \<^verbatim>\<open>Not Found\<close>, at a call that
  raises a \<^verbatim>\<open>RequestException\<close> with the text \<^verbatim>\<open>Connection refused\<close>, at a response of
  status 200 whose decoded body is a list, and at one whose decoded body is an empty dict.
\<close>

theorem client_never_raises_witness:
  "fst (enrich_company (\<lambda>q. Inr \<lparr> status_code = 404, resp_text = u ''Not Found'',
                                    resp_json = Inl (OtherException []) \<rparr>)
          (ApolloAPI_init (u ''k'')) (u ''example.com'') None None None)
     = Inr (error_result (u ''API Error: 404 - Not Found'')) \<and>
   fst (enrich_contact (\<lambda>q. Inl (RequestException (u ''Connection refused'')))
          (ApolloAPI_init (u ''k'')) (u ''a@b.co'') None None None)
     = Inr (error_result (u ''Request failed: Connection refused'')) \<and>
   fst (enrich_company (\<lambda>q. Inr \<lparr> status_code = 200, resp_text = u ''[]'',
                                    resp_json = Inr (JArr []) \<rparr>)
          (ApolloAPI_init (u ''k'')) (u ''example.com'') None None None)
     = Inr (error_result (u ''Unexpected error: '' @ [39] @ u ''list'' @ [39]
              @ u '' object has no attribute '' @ [39] @ u ''get'' @ [39])) \<and>
   fst (enrich_contact (\<lambda>q. Inr \<lparr> status_code = 200, resp_text = u ''{}'',
                                    resp_json = Inr (JObj []) \<rparr>)
          (ApolloAPI_init (u ''k'')) (u ''a@b.co'') None None None)
     = Inr \<lparr> status = u ''success'', data = JObj [],
             message = u ''Contact data enriched successfully'' \<rparr>"
  using client_never_raises
    [where post = "\<lambda>q. Inr \<lparr> status_code = 404, resp_text = u ''Not Found'',
                     resp_json = Inl (OtherException []) \<rparr>"
       and self = "ApolloAPI_init (u ''k'')" and d = "u ''example.com''" and l = None
       and n = None and c = None]
    client_never_raises
    [where post = "\<lambda>q. Inl (RequestException (u ''Connection refused''))"
       and self = "ApolloAPI_init (u ''k'')" and m = "u ''a@b.co''" and l = None
       and f = None and g = None]
    client_never_raises
    [where post = "\<lambda>q. Inr \<lparr> status_code = 200, resp_text = u ''[]'',
                     resp_json = Inr (JArr []) \<rparr>"
       and self = "ApolloAPI_init (u ''k'')" and d = "u ''example.com''" and l = None
       and n = None and c = None]
    client_never_raises
    [where post = "\<lambda>q. Inr \<lparr> status_code = 200, resp_text = u ''{}'',
                     resp_json = Inr (JObj []) \<rparr>"
       and self = "ApolloAPI_init (u ''k'')" and m = "u ''a@b.co''" and l = None
       and f = None and g = None]
  by (simp add: str_int_404) (simp add: u_def)

text \<open>
  The claim as stated fails at a response of status 200 whose body is no JSON, where
  \<^verbatim>\<open>response.json()\<close> raises the \<^verbatim>\<open>JSONDecodeError\<close> of \<^verbatim>\<open>requests\<close>, a \<^verbatim>\<open>RequestException\<close>:
  this is no transport failure, and the message of the result is \<^verbatim>\<open>Request failed:\<close> with
  the text of the exception, not the unexpected-error message.
\<close>

theorem client_never_raises_counterexample:
  "fst (enrich_company
          (\<lambda>q. Inr \<lparr> status_code = 200, resp_text = u ''<html>'',
                      resp_json = Inl (RequestException (u ''Expecting value'')) \<rparr>)
          (ApolloAPI_init (u ''k'')) (u ''example.com'') None None None)
     = Inr (error_result (u ''Request failed: Expecting value'')) \<and>
   take 18 (message (error_result (u ''Request failed: Expecting value'')))
     \<noteq> u ''Unexpected error: ''"
  by (simp add: enrich_company_def Let_def error_result_def) (simp add: u_def)






lemma snd_enrich_company:
  "snd (enrich_company post self d l n c) = [company_request self d l n c]"
  by (simp add: enrich_company_def Let_def)

lemma snd_enrich_contact:
  "snd (enrich_contact post self m l f g) = [contact_request self m l f g]"
  by (simp add: enrich_contact_def Let_def)

lemma opt_param_strip_if:
  "opt_param k (strip_if x) = (if strip x = [] then [] else [(k, strip x)])"
  by (auto simp: opt_param_def strip_if_def strip_Nil)

lemmas run_strip = strip_def isspace_def u_def

text \<open>
  Claim C2: \<open>enrich_company_data\<close> and \<open>enrich_contact_data\<close> run four checks in a fixed
  order: the API key blank, the required identifier blank, the identifier refused by its
  validator, the LinkedIn URL given and refused by its validator.  The first check that
  fails gives the text returned, and then no request is sent; when all four pass, exactly
  one request is sent.  In particular \<^verbatim>\<open>enrich_company_data("", "example.com", "", "", "")\<close>
  returns the text that asks for the API key and sends nothing.
\<close>

theorem preflight_order:
  "(strip key = [] \<longrightarrow>
      enrich_company_data rp post key domain li name cc = (Inr err_api_key, [])) \<and>
   (strip key \<noteq> [] \<and> strip domain = [] \<longrightarrow>
      enrich_company_data rp post key domain li name cc = (Inr err_domain_required, [])) \<and>
   (strip key \<noteq> [] \<and> strip domain \<noteq> [] \<and> \<not> validate_domain domain \<longrightarrow>
      enrich_company_data rp post key domain li name cc = (Inr err_domain_format, [])) \<and>
   (strip key \<noteq> [] \<and> strip domain \<noteq> [] \<and> validate_domain domain \<and> li \<noteq> [] \<and>
      \<not> validate_linkedin_url li \<longrightarrow>
      enrich_company_data rp post key domain li name cc = (Inr err_company_linkedin, [])) \<and>
   (strip key \<noteq> [] \<and> strip domain \<noteq> [] \<and> validate_domain domain \<and>
      (li = [] \<or> validate_linkedin_url li) \<longrightarrow>
      snd (enrich_company_data rp post key domain li name cc) =
        [company_request (ApolloAPI_init key) (strip domain) (strip_if li) (strip_if name)
           (strip_if cc)]) \<and>
   (strip key = [] \<longrightarrow>
      enrich_contact_data rp post key email li fname lname = (Inr err_api_key, [])) \<and>
   (strip key \<noteq> [] \<and> strip email = [] \<longrightarrow>
      enrich_contact_data rp post key email li fname lname = (Inr err_email_required, [])) \<and>
   (strip key \<noteq> [] \<and> strip email \<noteq> [] \<and> \<not> validate_email email \<longrightarrow>
      enrich_contact_data rp post key email li fname lname = (Inr err_email_format, [])) \<and>
   (strip key \<noteq> [] \<and> strip email \<noteq> [] \<and> validate_email email \<and> li \<noteq> [] \<and>
      \<not> validate_linkedin_url li \<longrightarrow>
      enrich_contact_data rp post key email li fname lname = (Inr err_contact_linkedin, [])) \<and>
   (strip key \<noteq> [] \<and> strip email \<noteq> [] \<and> validate_email email \<and>
      (li = [] \<or> validate_linkedin_url li) \<longrightarrow>
      snd (enrich_contact_data rp post key email li fname lname) =
        [contact_request (ApolloAPI_init key) (strip email) (strip_if li) (strip_if fname)
           (strip_if lname)]) \<and>
   enrich_company_data rp post [] (u ''example.com'') [] [] [] = (Inr err_api_key, [])"
  by (auto simp: enrich_company_data_def enrich_contact_data_def Let_def split_def
        snd_enrich_company snd_enrich_contact strip_Nil)

lemma strip_k: "strip (u ''k'') \<noteq> []" "strip [32, 32] = []"
  "strip (u ''example.com'') \<noteq> []" "strip (u ''a@b.co'') \<noteq> []"
  "strip (u ''no domain'') \<noteq> []" "strip (u ''nobody'') \<noteq> []"
  by (simp_all add: run_strip)

lemma validate_examples:
  "validate_domain (u ''example.com'')" "\<not> validate_domain (u ''no domain'')"
  "validate_email (u ''a@b.co'')" "\<not> validate_email (u ''nobody'')"
  "\<not> validate_linkedin_url [32, 32]"
  by (simp_all add: run_validate)

text \<open>The theorem at inputs that fail each check in turn and at inputs that pass them all.\<close>

theorem preflight_order_witness:
  "enrich_company_data (\<lambda>v. []) (\<lambda>q. Inl (RequestException [])) [32, 32] (u ''example.com'') [] [] []
     = (Inr err_api_key, []) \<and>
   enrich_company_data (\<lambda>v. []) (\<lambda>q. Inl (RequestException [])) (u ''k'') [32, 32] [] [] []
     = (Inr err_domain_required, []) \<and>
   enrich_company_data (\<lambda>v. []) (\<lambda>q. Inl (RequestException [])) (u ''k'') (u ''no domain'') [] [] []
     = (Inr err_domain_format, []) \<and>
   enrich_company_data (\<lambda>v. []) (\<lambda>q. Inl (RequestException [])) (u ''k'') (u ''example.com'')
       [32, 32] [] []
     = (Inr err_company_linkedin, []) \<and>
   snd (enrich_company_data (\<lambda>v. []) (\<lambda>q. Inl (RequestException [])) (u ''k'') (u ''example.com'')
       [] [] [])
     = [company_request (ApolloAPI_init (u ''k'')) (strip (u ''example.com'')) None None None] \<and>
   enrich_contact_data (\<lambda>v. []) (\<lambda>q. Inl (RequestException [])) [32, 32] (u ''a@b.co'') [] [] []
     = (Inr err_api_key, []) \<and>
   enrich_contact_data (\<lambda>v. []) (\<lambda>q. Inl (RequestException [])) (u ''k'') [32, 32] [] [] []
     = (Inr err_email_required, []) \<and>
   enrich_contact_data (\<lambda>v. []) (\<lambda>q. Inl (RequestException [])) (u ''k'') (u ''nobody'') [] [] []
     = (Inr err_email_format, []) \<and>
   enrich_contact_data (\<lambda>v. []) (\<lambda>q. Inl (RequestException [])) (u ''k'') (u ''a@b.co'')
       [32, 32] [] []
     = (Inr err_contact_linkedin, []) \<and>
   snd (enrich_contact_data (\<lambda>v. []) (\<lambda>q. Inl (RequestException [])) (u ''k'') (u ''a@b.co'')
       [] [] [])
     = [contact_request (ApolloAPI_init (u ''k'')) (strip (u ''a@b.co'')) None None None]"
  using
    preflight_order [where key = "[32, 32]"]
    preflight_order [where key = "u ''k''" and domain = "[32, 32]" and email = "[32, 32]" and li = "[]"]
    preflight_order [where key = "u ''k''" and domain = "u ''no domain''" and email = "u ''nobody''"
      and li = "[]"]
    preflight_order [where key = "u ''k''" and domain = "u ''example.com''" and email = "u ''a@b.co''"
      and li = "[32, 32]"]
    preflight_order [where key = "u ''k''" and domain = "u ''example.com''" and email = "u ''a@b.co''"
      and li = "[]" and name = "[]" and cc = "[]" and fname = "[]" and lname = "[]"]
  by (simp add: strip_k validate_examples strip_if_def)

lemma params_company_request:
  "params (company_request self d (strip_if l) (strip_if n) (strip_if c)) =
     [(u ''domain'', d)]
       @ (if strip l = [] then [] else [(u ''linkedin_url'', strip l)])
       @ (if strip n = [] then [] else [(u ''name'', strip n)])
       @ (if strip c = [] then [] else [(u ''country'', strip c)])"
  by (simp add: company_request_def opt_param_strip_if)

lemma params_contact_request:
  "params (contact_request self m (strip_if l) (strip_if f) (strip_if g)) =
     [(u ''email'', m)]
       @ (if strip l = [] then [] else [(u ''linkedin_url'', strip l)])
       @ (if strip f = [] then [] else [(u ''first_name'', strip f)])
       @ (if strip g = [] then [] else [(u ''last_name'', strip g)])"
  by (simp add: contact_request_def opt_param_strip_if)

text \<open>
  Claim C5 says that every optional field is trimmed before use and counts as absent when
  empty after trimming, so that a LinkedIn URL of white space only is absent and gives no
  LinkedIn error.  The code checks the LinkedIn URL before it trims it.  What holds: when
  the four checks pass, the request carries each optional field trimmed and leaves out
  each one that is empty after trimming; and a LinkedIn URL that is not empty but is empty
  after trimming fails the fourth check, so that the LinkedIn error text is returned and
  nothing is sent.
\<close>

theorem optional_fields_trimmed:
  "(strip key \<noteq> [] \<and> strip domain \<noteq> [] \<and> validate_domain domain \<and>
      (li = [] \<or> validate_linkedin_url li) \<longrightarrow>
      map params (snd (enrich_company_data rp post key domain li name cc)) =
        [[(u ''domain'', strip domain)]
           @ (if strip li = [] then [] else [(u ''linkedin_url'', strip li)])
           @ (if strip name = [] then [] else [(u ''name'', strip name)])
           @ (if strip cc = [] then [] else [(u ''country'', strip cc)])]) \<and>
   (strip key \<noteq> [] \<and> strip domain \<noteq> [] \<and> validate_domain domain \<and>
      li \<noteq> [] \<and> strip li = [] \<longrightarrow>
      enrich_company_data rp post key domain li name cc = (Inr err_company_linkedin, [])) \<and>
   (strip key \<noteq> [] \<and> strip email \<noteq> [] \<and> validate_email email \<and>
      (li = [] \<or> validate_linkedin_url li) \<longrightarrow>
      map params (snd (enrich_contact_data rp post key email li fname lname)) =
        [[(u ''email'', strip email)]
           @ (if strip li = [] then [] else [(u ''linkedin_url'', strip li)])
           @ (if strip fname = [] then [] else [(u ''first_name'', strip fname)])
           @ (if strip lname = [] then [] else [(u ''last_name'', strip lname)])]) \<and>
   (strip key \<noteq> [] \<and> strip email \<noteq> [] \<and> validate_email email \<and>
      li \<noteq> [] \<and> strip li = [] \<longrightarrow>
      enrich_contact_data rp post key email li fname lname = (Inr err_contact_linkedin, []))"
proof (intro conjI impI)
  assume "strip key \<noteq> [] \<and> strip domain \<noteq> [] \<and> validate_domain domain \<and>
      (li = [] \<or> validate_linkedin_url li)"
  then show "map params (snd (enrich_company_data rp post key domain li name cc)) =
        [[(u ''domain'', strip domain)]
           @ (if strip li = [] then [] else [(u ''linkedin_url'', strip li)])
           @ (if strip name = [] then [] else [(u ''name'', strip name)])
           @ (if strip cc = [] then [] else [(u ''country'', strip cc)])]"
    by (auto simp: enrich_company_data_def Let_def split_def snd_enrich_company
          params_company_request)
next
  assume a: "strip key \<noteq> [] \<and> strip domain \<noteq> [] \<and> validate_domain domain \<and>
      li \<noteq> [] \<and> strip li = []"
  with validate_linkedin_url_strip [of li] have "\<not> validate_linkedin_url li" by blast
  with a show "enrich_company_data rp post key domain li name cc = (Inr err_company_linkedin, [])"
    by (simp add: enrich_company_data_def)
next
  assume "strip key \<noteq> [] \<and> strip email \<noteq> [] \<and> validate_email email \<and>
      (li = [] \<or> validate_linkedin_url li)"
  then show "map params (snd (enrich_contact_data rp post key email li fname lname)) =
        [[(u ''email'', strip email)]
           @ (if strip li = [] then [] else [(u ''linkedin_url'', strip li)])
           @ (if strip fname = [] then [] else [(u ''first_name'', strip fname)])
           @ (if strip lname = [] then [] else [(u ''last_name'', strip lname)])]"
    by (auto simp: enrich_contact_data_def Let_def split_def snd_enrich_contact
          params_contact_request)
next
  assume a: "strip key \<noteq> [] \<and> strip email \<noteq> [] \<and> validate_email email \<and>
      li \<noteq> [] \<and> strip li = []"
  with validate_linkedin_url_strip [of li] have "\<not> validate_linkedin_url li" by blast
  with a show "enrich_contact_data rp post key email li fname lname = (Inr err_contact_linkedin, [])"
    by (simp add: enrich_contact_data_def)
qed

lemma strip_examples:
  "strip (u ''  Acme Inc  '') = u ''Acme Inc''" "strip (u ''  '') = []" "strip [] = []"
  "strip (u ''example.com'') = u ''example.com''" "strip (u ''a@b.co'') = u ''a@b.co''"
  "strip (u '' Jane'') = u ''Jane''" "strip (u ''   '') = []"
  by (simp_all add: run_strip)

text \<open>
  The theorem at a company name and a first name with white space around them, a country
  code and a last name of white space only, and a LinkedIn URL of two spaces.
\<close>

theorem optional_fields_trimmed_witness:
  "map params (snd (enrich_company_data (\<lambda>v. []) (\<lambda>q. Inl (RequestException []))
       (u ''k'') (u ''example.com'') [] (u ''  Acme Inc  '') (u ''  ''))) =
     [[(u ''domain'', u ''example.com''), (u ''name'', u ''Acme Inc'')]] \<and>
   enrich_company_data (\<lambda>v. []) (\<lambda>q. Inl (RequestException []))
       (u ''k'') (u ''example.com'') (u ''  '') [] [] = (Inr err_company_linkedin, []) \<and>
   map params (snd (enrich_contact_data (\<lambda>v. []) (\<lambda>q. Inl (RequestException []))
       (u ''k'') (u ''a@b.co'') [] (u '' Jane'') (u ''  ''))) =
     [[(u ''email'', u ''a@b.co''), (u ''first_name'', u ''Jane'')]] \<and>
   enrich_contact_data (\<lambda>v. []) (\<lambda>q. Inl (RequestException []))
       (u ''k'') (u ''a@b.co'') (u ''  '') [] [] = (Inr err_contact_linkedin, [])"
  using
    optional_fields_trimmed [where key = "u ''k''" and domain = "u ''example.com''"
      and email = "u ''a@b.co''" and li = "[]" and name = "u ''  Acme Inc  ''" and cc = "u ''  ''"
      and fname = "u '' Jane''" and lname = "u ''  ''"]
    optional_fields_trimmed [where key = "u ''k''" and domain = "u ''example.com''"
      and email = "u ''a@b.co''" and li = "u ''  ''"]
  by (simp add: strip_k validate_examples strip_examples)

text \<open>
  The claim as stated fails at a LinkedIn URL of three spaces: it is empty after trimming,
  and the LinkedIn error text is returned.
\<close>

theorem optional_fields_trimmed_counterexample:
  "strip (u ''   '') = [] \<and>
   enrich_company_data (\<lambda>v. []) (\<lambda>q. Inl (RequestException []))
       (u ''key'') (u ''example.com'') (u ''   '') [] [] = (Inr err_company_linkedin, [])"
proof -
  have 1: "strip (u ''   '') = []" "strip (u ''key'') \<noteq> []" "strip (u ''example.com'') \<noteq> []"
    "u ''   '' \<noteq> []"
    by (simp_all add: run_strip)
  have 2: "validate_domain (u ''example.com'')" "\<not> validate_linkedin_url (u ''   '')"
    by (simp_all add: run_validate)
  from 1 2 show ?thesis by (simp add: enrich_company_data_def)
qed

lemma shown_obj: "shown rp (JObj kvs) k = Inr (field_text rp kvs k)"
  by (simp add: shown_def field_text_def split: option.splits)

lemma company_report_obj:
  "company_report rp \<lparr> status = s, data = JObj kvs, message = msg \<rparr> =
     Inr (check_mark @ u '' '' @ msg @ [10, 10]
       @ bar_chart @ u '' **Enriched Company Data:**'' @ [10]
       @ bullet @ u '' **Name:** '' @ field_text rp kvs (u ''name'') @ [10]
       @ bullet @ u '' **Domain:** '' @ field_text rp kvs (u ''domain'') @ [10]
       @ bullet @ u '' **Website:** '' @ field_text rp kvs (u ''website_url'') @ [10]
       @ bullet @ u '' **LinkedIn:** '' @ field_text rp kvs (u ''linkedin_url'') @ [10]
       @ bullet @ u '' **Industry:** '' @ field_text rp kvs (u ''industry'') @ [10]
       @ bullet @ u '' **Company Size:** '' @ field_text rp kvs (u ''estimated_num_employees'') @ [10]
       @ bullet @ u '' **Location:** '' @ field_text rp kvs (u ''city'') @ u '', ''
           @ field_text rp kvs (u ''state'') @ u '', '' @ field_text rp kvs (u ''country'') @ [10]
       @ bullet @ u '' **Founded:** '' @ field_text rp kvs (u ''founded_year'') @ [10]
       @ bullet @ u '' **Description:** '' @ field_text rp kvs (u ''short_description'') @ [10])"
  by (simp add: company_report_def shown_obj)

lemma contact_report_obj:
  "contact_report rp \<lparr> status = s, data = JObj kvs, message = msg \<rparr> =
     bind_e (shown_company rp (JObj kvs)) (\<lambda>co.
     bind_e (shown_phone rp (JObj kvs)) (\<lambda>ph.
       Inr (check_mark @ u '' '' @ msg @ [10, 10]
         @ bust @ u '' **Enriched Contact Data:**'' @ [10]
         @ bullet @ u '' **Name:** '' @ field_text rp kvs (u ''first_name'') @ u '' ''
             @ field_text rp kvs (u ''last_name'') @ [10]
         @ bullet @ u '' **Email:** '' @ field_text rp kvs (u ''email'') @ [10]
         @ bullet @ u '' **LinkedIn:** '' @ field_text rp kvs (u ''linkedin_url'') @ [10]
         @ bullet @ u '' **Title:** '' @ field_text rp kvs (u ''title'') @ [10]
         @ bullet @ u '' **Company:** '' @ co @ [10]
         @ bullet @ u '' **Location:** '' @ field_text rp kvs (u ''city'') @ u '', ''
             @ field_text rp kvs (u ''state'') @ u '', '' @ field_text rp kvs (u ''country'') @ [10]
         @ bullet @ u '' **Phone:** '' @ ph @ [10]
         @ bullet @ u '' **Twitter:** '' @ field_text rp kvs (u ''twitter_url'') @ [10]
         @ bullet @ u '' **Bio:** '' @ field_text rp kvs (u ''headline'') @ [10])))"
  by (cases "shown_company rp (JObj kvs)"; cases "shown_phone rp (JObj kvs)")
     (simp_all add: contact_report_def shown_obj)

lemma shown_company_cases:
  "(map_of kvs (u ''organization'') = None \<longrightarrow> shown_company rp (JObj kvs) = Inr NA) \<and>
   (\<forall>v. map_of kvs (u ''organization'') = Some v \<and> \<not> truthy v \<longrightarrow>
      shown_company rp (JObj kvs) = Inr NA) \<and>
   (\<forall>org. map_of kvs (u ''organization'') = Some (JObj org) \<and> org \<noteq> [] \<longrightarrow>
      shown_company rp (JObj kvs) = Inr (field_text rp org (u ''name'')))"
  by (auto simp: shown_company_def field_text_def split: option.splits)

lemma shown_phone_cases:
  "(map_of kvs (u ''phone_numbers'') = None \<longrightarrow> shown_phone rp (JObj kvs) = Inr NA) \<and>
   (\<forall>v. map_of kvs (u ''phone_numbers'') = Some v \<and> \<not> truthy v \<longrightarrow>
      shown_phone rp (JObj kvs) = Inr NA) \<and>
   (\<forall>p ps. map_of kvs (u ''phone_numbers'') = Some (JArr (JObj p # ps)) \<longrightarrow>
      shown_phone rp (JObj kvs) = Inr (field_text rp p (u ''raw_number'')))"
  by (auto simp: shown_phone_def field_text_def split: option.splits)

lemma str_int_0: "str_int 0 = u ''0''"
  by (simp add: run_str_int u_def)

text \<open>
  Claim C1 says that the report of a success result shows \<^verbatim>\<open>N/A\<close> for a field exactly when
  the key is absent from the payload or its value is falsy.  The code reads a field with
  \<^verbatim>\<open>data.get(key, 'N/A')\<close>, which falls back on \<^verbatim>\<open>N/A\<close> for an absent key only.  What
  holds for a payload that is a dict: each field read directly shows \<^verbatim>\<open>N/A\<close> when its key
  is absent and the text of its value when the key is present, also when that value is
  falsy (nothing for the empty string, \<^verbatim>\<open>None\<close>, \<^verbatim>\<open>0\<close>, \<^verbatim>\<open>False\<close>); the Company and Phone
  fields of a contact show \<^verbatim>\<open>N/A\<close> when \<^verbatim>\<open>organization\<close> or \<^verbatim>\<open>phone_numbers\<close> is absent or
  falsy, and otherwise the \<^verbatim>\<open>name\<close> of the organization and the \<^verbatim>\<open>raw_number\<close> of the first
  phone number, read in the same way.
\<close>

theorem fallback_when_absent:
  "company_report rp \<lparr> status = s, data = JObj kvs, message = msg \<rparr> =
     Inr (check_mark @ u '' '' @ msg @ [10, 10]
       @ bar_chart @ u '' **Enriched Company Data:**'' @ [10]
       @ bullet @ u '' **Name:** '' @ field_text rp kvs (u ''name'') @ [10]
       @ bullet @ u '' **Domain:** '' @ field_text rp kvs (u ''domain'') @ [10]
       @ bullet @ u '' **Website:** '' @ field_text rp kvs (u ''website_url'') @ [10]
       @ bullet @ u '' **LinkedIn:** '' @ field_text rp kvs (u ''linkedin_url'') @ [10]
       @ bullet @ u '' **Industry:** '' @ field_text rp kvs (u ''industry'') @ [10]
       @ bullet @ u '' **Company Size:** '' @ field_text rp kvs (u ''estimated_num_employees'') @ [10]
       @ bullet @ u '' **Location:** '' @ field_text rp kvs (u ''city'') @ u '', ''
           @ field_text rp kvs (u ''state'') @ u '', '' @ field_text rp kvs (u ''country'') @ [10]
       @ bullet @ u '' **Founded:** '' @ field_text rp kvs (u ''founded_year'') @ [10]
       @ bullet @ u '' **Description:** '' @ field_text rp kvs (u ''short_description'') @ [10]) \<and>
   contact_report rp \<lparr> status = s, data = JObj kvs, message = msg \<rparr> =
     bind_e (shown_company rp (JObj kvs)) (\<lambda>co.
     bind_e (shown_phone rp (JObj kvs)) (\<lambda>ph.
       Inr (check_mark @ u '' '' @ msg @ [10, 10]
         @ bust @ u '' **Enriched Contact Data:**'' @ [10]
         @ bullet @ u '' **Name:** '' @ field_text rp kvs (u ''first_name'') @ u '' ''
             @ field_text rp kvs (u ''last_name'') @ [10]
         @ bullet @ u '' **Email:** '' @ field_text rp kvs (u ''email'') @ [10]
         @ bullet @ u '' **LinkedIn:** '' @ field_text rp kvs (u ''linkedin_url'') @ [10]
         @ bullet @ u '' **Title:** '' @ field_text rp kvs (u ''title'') @ [10]
         @ bullet @ u '' **Company:** '' @ co @ [10]
         @ bullet @ u '' **Location:** '' @ field_text rp kvs (u ''city'') @ u '', ''
             @ field_text rp kvs (u ''state'') @ u '', '' @ field_text rp kvs (u ''country'') @ [10]
         @ bullet @ u '' **Phone:** '' @ ph @ [10]
         @ bullet @ u '' **Twitter:** '' @ field_text rp kvs (u ''twitter_url'') @ [10]
         @ bullet @ u '' **Bio:** '' @ field_text rp kvs (u ''headline'') @ [10]))) \<and>
   (map_of kvs k = None \<longrightarrow> field_text rp kvs k = NA) \<and>
   (map_of kvs k = Some v \<longrightarrow> field_text rp kvs k = py_str rp v) \<and>
   py_str rp (JStr []) = [] \<and> py_str rp JNull = u ''None'' \<and>
   py_str rp (JInt 0) = u ''0'' \<and> py_str rp (JBool False) = u ''False'' \<and>
   (map_of kvs (u ''organization'') = None \<longrightarrow> shown_company rp (JObj kvs) = Inr NA) \<and>
   (map_of kvs (u ''organization'') = Some v \<and> \<not> truthy v \<longrightarrow>
      shown_company rp (JObj kvs) = Inr NA) \<and>
   (map_of kvs (u ''organization'') = Some (JObj org) \<and> org \<noteq> [] \<longrightarrow>
      shown_company rp (JObj kvs) = Inr (field_text rp org (u ''name''))) \<and>
   (map_of kvs (u ''phone_numbers'') = None \<longrightarrow> shown_phone rp (JObj kvs) = Inr NA) \<and>
   (map_of kvs (u ''phone_numbers'') = Some v \<and> \<not> truthy v \<longrightarrow>
      shown_phone rp (JObj kvs) = Inr NA) \<and>
   (map_of kvs (u ''phone_numbers'') = Some (JArr (JObj p # ps)) \<longrightarrow>
      shown_phone rp (JObj kvs) = Inr (field_text rp p (u ''raw_number'')))"
  using shown_company_cases [of kvs rp] shown_phone_cases [of kvs rp]
  by (simp add: company_report_obj contact_report_obj str_int_0 field_text_def)

text \<open>The theorem at payloads with an absent key, an empty name, and absent, falsy and filled nested values.\<close>

theorem fallback_when_absent_witness:
  "field_text (\<lambda>v. []) [(u ''name'', JStr [])] (u ''domain'') = NA \<and>
   field_text (\<lambda>v. []) [(u ''name'', JStr [])] (u ''name'') = [] \<and>
   shown_company (\<lambda>v. []) (JObj [(u ''name'', JStr [])]) = Inr NA \<and>
   shown_phone (\<lambda>v. []) (JObj [(u ''name'', JStr [])]) = Inr NA \<and>
   shown_company (\<lambda>v. []) (JObj [(u ''organization'', JNull)]) = Inr NA \<and>
   shown_phone (\<lambda>v. []) (JObj [(u ''phone_numbers'', JArr [])]) = Inr NA \<and>
   shown_company (\<lambda>v. []) (JObj [(u ''organization'', JObj [(u ''name'', JStr (u ''Acme''))])])
     = Inr (u ''Acme'') \<and>
   shown_phone (\<lambda>v. [])
       (JObj [(u ''phone_numbers'', JArr [JObj [(u ''raw_number'', JStr (u ''555''))]])])
     = Inr (u ''555'')"
  using
    fallback_when_absent [where rp = "\<lambda>v. []" and kvs = "[(u ''name'', JStr [])]"
      and k = "u ''domain''"]
    fallback_when_absent [where rp = "\<lambda>v. []" and kvs = "[(u ''name'', JStr [])]"
      and k = "u ''name''" and v = "JStr []"]
    fallback_when_absent [where rp = "\<lambda>v. []" and kvs = "[(u ''organization'', JNull)]"
      and v = JNull]
    fallback_when_absent [where rp = "\<lambda>v. []" and kvs = "[(u ''phone_numbers'', JArr [])]"
      and v = "JArr []"]
    fallback_when_absent [where rp = "\<lambda>v. []"
      and kvs = "[(u ''organization'', JObj [(u ''name'', JStr (u ''Acme''))])]"
      and org = "[(u ''name'', JStr (u ''Acme''))]"]
    fallback_when_absent [where rp = "\<lambda>v. []"
      and kvs = "[(u ''phone_numbers'', JArr [JObj [(u ''raw_number'', JStr (u ''555''))]])]"
      and p = "[(u ''raw_number'', JStr (u ''555''))]" and ps = "[]"]
  by (simp add: field_text_def)

lemma enrich_company_success:
  assumes "post (company_request self d l n c) = Inr resp" and "status_code resp = 200"
    and "resp_json resp = Inr (JObj body)"
  shows "fst (enrich_company post self d l n c) =
           Inr \<lparr> status = u ''success'',
                  data = (case map_of body (u ''organization'') of None \<Rightarrow> JObj [] | Some v \<Rightarrow> v),
                  message = u ''Company data enriched successfully'' \<rparr>"
  using assms by (simp add: enrich_company_def Let_def)

lemma strip_example_com: "strip (u ''example.com'') = u ''example.com''"
  by (simp add: run_strip)

lemma field_text_example:
  "field_text rp [(u ''name'', JStr (u ''Example Corp'')), (u ''domain'', JStr (u ''example.com''))] k =
     (if k = u ''name'' then u ''Example Corp'' else if k = u ''domain'' then u ''example.com''
      else NA)"
  by (simp add: field_text_def)

lemma u_append: "u a @ u b = u (a @ b)" "u a @ u b @ r = u (a @ b) @ r"
  by (simp_all add: u_def)

text \<open>
  Claim C9: with an API key that is not blank, the domain \<^verbatim>\<open>example.com\<close>, a LinkedIn URL
  that is empty or valid, and a response of status 200 whose body holds
  \<^verbatim>\<open>{"name": "Example Corp", "domain": "example.com"}\<close> under \<^verbatim>\<open>organization\<close>, the text
  returned is the header line with the message of the result, an empty line, the title
  line, and the nine field lines in the order Name, Domain, Website, LinkedIn, Industry,
  Company Size, Location, Founded, Description, with \<^verbatim>\<open>Example Corp\<close> and \<^verbatim>\<open>example.com\<close> for
  the two fields present and \<^verbatim>\<open>N/A\<close> for every other one.
\<close>

theorem company_report_example:
  assumes "strip key \<noteq> []" and "li = [] \<or> validate_linkedin_url li"
    and "post (company_request (ApolloAPI_init key) (u ''example.com'') (strip_if li)
           (strip_if name) (strip_if cc)) = Inr resp"
    and "status_code resp = 200"
    and "resp_json resp = Inr (JObj body)"
    and "map_of body (u ''organization'') =
           Some (JObj [(u ''name'', JStr (u ''Example Corp'')),
                       (u ''domain'', JStr (u ''example.com''))])"
  shows "fst (enrich_company_data rp post key (u ''example.com'') li name cc) =
     Inr (check_mark @ u '' Company data enriched successfully'' @ [10, 10]
       @ bar_chart @ u '' **Enriched Company Data:**'' @ [10]
       @ bullet @ u '' **Name:** Example Corp'' @ [10]
       @ bullet @ u '' **Domain:** example.com'' @ [10]
       @ bullet @ u '' **Website:** N/A'' @ [10]
       @ bullet @ u '' **LinkedIn:** N/A'' @ [10]
       @ bullet @ u '' **Industry:** N/A'' @ [10]
       @ bullet @ u '' **Company Size:** N/A'' @ [10]
       @ bullet @ u '' **Location:** N/A, N/A, N/A'' @ [10]
       @ bullet @ u '' **Founded:** N/A'' @ [10]
       @ bullet @ u '' **Description:** N/A'' @ [10])"
proof -
  let ?r = "\<lparr> status = u ''success'',
              data = JObj [(u ''name'', JStr (u ''Example Corp'')),
                           (u ''domain'', JStr (u ''example.com''))],
              message = u ''Company data enriched successfully'' \<rparr>"
  have call: "fst (enrich_company post (ApolloAPI_init key) (u ''example.com'') (strip_if li)
           (strip_if name) (strip_if cc)) = Inr ?r"
    using enrich_company_success [where post = post, OF assms(3,4,5)] assms(6) by simp
  have "fst (enrich_company_data rp post key (u ''example.com'') li name cc) = company_report rp ?r"
    using assms(1,2) call validate_examples(1)
    by (auto simp: enrich_company_data_def Let_def split_def strip_example_com)
  then show ?thesis
    by (simp add: company_report_obj field_text_example NA_def u_append)
qed

text \<open>The theorem at the key \<^verbatim>\<open>k\<close> with no optional field given.\<close>

theorem company_report_example_witness:
  "fst (enrich_company_data (\<lambda>v. [])
         (\<lambda>q. Inr \<lparr> status_code = 200, resp_text = [],
                     resp_json = Inr (JObj [(u ''organization'',
                        JObj [(u ''name'', JStr (u ''Example Corp'')),
                              (u ''domain'', JStr (u ''example.com''))])]) \<rparr>)
         (u ''k'') (u ''example.com'') [] [] []) =
     Inr (check_mark @ u '' Company data enriched successfully'' @ [10, 10]
       @ bar_chart @ u '' **Enriched Company Data:**'' @ [10]
       @ bullet @ u '' **Name:** Example Corp'' @ [10]
       @ bullet @ u '' **Domain:** example.com'' @ [10]
       @ bullet @ u '' **Website:** N/A'' @ [10]
       @ bullet @ u '' **LinkedIn:** N/A'' @ [10]
       @ bullet @ u '' **Industry:** N/A'' @ [10]
       @ bullet @ u '' **Company Size:** N/A'' @ [10]
       @ bullet @ u '' **Location:** N/A, N/A, N/A'' @ [10]
       @ bullet @ u '' **Founded:** N/A'' @ [10]
       @ bullet @ u '' **Description:** N/A'' @ [10])"
  using company_report_example
    [where rp = "\<lambda>v. []"
       and post = "\<lambda>q. Inr \<lparr> status_code = 200, resp_text = [],
                     resp_json = Inr (JObj [(u ''organization'',
                        JObj [(u ''name'', JStr (u ''Example Corp'')),
                              (u ''domain'', JStr (u ''example.com''))])]) \<rparr>"
       and key = "u ''k''" and li = "[]" and name = "[]" and cc = "[]"
       and resp = "\<lparr> status_code = 200, resp_text = [],
                     resp_json = Inr (JObj [(u ''organization'',
                        JObj [(u ''name'', JStr (u ''Example Corp'')),
                              (u ''domain'', JStr (u ''example.com''))])]) \<rparr>"
       and body = "[(u ''organization'',
                        JObj [(u ''name'', JStr (u ''Example Corp'')),
                              (u ''domain'', JStr (u ''example.com''))])]"]
  by (simp add: strip_k)

text \<open>
  The claim as stated fails at the payload \<^verbatim>\<open>{"name": ""}\<close>: the value of \<^verbatim>\<open>name\<close> is falsy
  and the Name line of the report shows nothing where the claim has \<^verbatim>\<open>N/A\<close>.
\<close>

theorem fallback_when_absent_counterexample:
  "\<not> truthy (JStr []) \<and>
   fst (enrich_company_data (\<lambda>v. [])
         (\<lambda>q. Inr \<lparr> status_code = 200, resp_text = [],
                     resp_json = Inr (JObj [(u ''organization'',
                        JObj [(u ''name'', JStr [])])]) \<rparr>)
         (u ''k'') (u ''example.com'') [] [] []) =
     Inr (check_mark @ u '' Company data enriched successfully'' @ [10, 10]
       @ bar_chart @ u '' **Enriched Company Data:**'' @ [10]
       @ bullet @ u '' **Name:** '' @ [10]
       @ bullet @ u '' **Domain:** N/A'' @ [10]
       @ bullet @ u '' **Website:** N/A'' @ [10]
       @ bullet @ u '' **LinkedIn:** N/A'' @ [10]
       @ bullet @ u '' **Industry:** N/A'' @ [10]
       @ bullet @ u '' **Company Size:** N/A'' @ [10]
       @ bullet @ u '' **Location:** N/A, N/A, N/A'' @ [10]
       @ bullet @ u '' **Founded:** N/A'' @ [10]
       @ bullet @ u '' **Description:** N/A'' @ [10])"
proof -
  let ?post = "\<lambda>q::request. (Inr \<lparr> status_code = 200, resp_text = [],
                     resp_json = Inr (JObj [(u ''organization'',
                        JObj [(u ''name'', JStr [])])]) \<rparr> :: exn + response)"
  let ?r = "\<lparr> status = u ''success'', data = JObj [(u ''name'', JStr [])],
              message = u ''Company data enriched successfully'' \<rparr>"
  have call: "fst (enrich_company ?post (ApolloAPI_init (u ''k'')) (u ''example.com'')
                 None None None) = Inr ?r"
    by (simp add: enrich_company_def Let_def)
  have "fst (enrich_company_data (\<lambda>v. []) ?post (u ''k'') (u ''example.com'') [] [] []) =
          company_report (\<lambda>v. []) ?r"
    using call validate_examples(1) strip_k(1)
    by (simp add: enrich_company_data_def Let_def split_def strip_example_com strip_if_def)
  then show ?thesis
    by (simp add: company_report_obj field_text_def NA_def u_append)
qed

end
